theory Spec2Isabelle
  imports Main
begin

unbundle bit_operations_syntax

section \<open>Python values used by the two harnesses\<close>

text \<open>
  The repository holds two test harnesses for the fadors99 C compiler:
  \<^verbatim>\<open>verify_coff.py\<close> (the strict harness: compile straight to an executable, run it,
  compare the exit code) and \<^verbatim>\<open>tests/test_asm_execution.py\<close> (the lenient harness:
  compile to assembly, assemble, link, run). Both are scripts that drive external
  processes. The external world is a parameter of the model: a record of the operations
  the scripts call on it, over an arbitrary type \<open>'w\<close> of world states.

  Python integers are \<open>int\<close>, strings are \<open>string\<close> with characters in the 8-bit range,
  \<^verbatim>\<open>os.environ\<close> is a map from names to values whose assignment goes through the
  platform, which may refuse it. A raised exception is the \<open>Inl\<close> of a sum type.
\<close>

datatype exn = CalledProcessError int | FileNotFoundError | OSError | ValueError

text \<open>
  \<^verbatim>\<open>FileNotFoundError\<close> is a subclass of \<^verbatim>\<open>OSError\<close>, so \<^verbatim>\<open>except OSError\<close>
  catches both; \<^verbatim>\<open>CalledProcessError\<close> and \<^verbatim>\<open>ValueError\<close> are not.
\<close>

fun is_OSError :: "exn \<Rightarrow> bool" where
  "is_OSError FileNotFoundError = True"
| "is_OSError OSError = True"
| "is_OSError (CalledProcessError n) = False"
| "is_OSError ValueError = False"

fun is_CalledProcessError :: "exn \<Rightarrow> bool" where
  "is_CalledProcessError (CalledProcessError n) = True"
| "is_CalledProcessError FileNotFoundError = False"
| "is_CalledProcessError OSError = False"
| "is_CalledProcessError ValueError = False"

type_synonym env = "string \<rightharpoonup> string"

subsection \<open>Characters that cannot be written in a literal\<close>

definition bsl :: char where
  "bsl = CHR 0x5C"

definition dquote :: char where
  "dquote = CHR 0x22"

definition newline :: char where
  "newline = CHR 0x0A"

subsection \<open>\<^verbatim>\<open>str(n)\<close> for an integer\<close>

definition digit_char :: "nat \<Rightarrow> char" where
  "digit_char d = ''0123456789'' ! d"

fun str_nat :: "nat \<Rightarrow> string" where
  "str_nat n = (if n < 10 then [digit_char n] else str_nat (n div 10) @ [digit_char (n mod 10)])"

declare str_nat.simps [simp del]

definition str_int :: "int \<Rightarrow> string" where
  "str_int i = (if i < 0 then CHR ''-'' # str_nat (nat (- i)) else str_nat (nat i))"

subsection \<open>String operations\<close>

text \<open>\<^verbatim>\<open>pat in s\<close> on strings: \<open>pat\<close> occurs in \<open>s\<close> as a contiguous block.\<close>

fun starts_with :: "string \<Rightarrow> string \<Rightarrow> bool" where
  "starts_with [] s = True"
| "starts_with (p # ps) [] = False"
| "starts_with (p # ps) (c # cs) = (p = c \<and> starts_with ps cs)"

fun str_in :: "string \<Rightarrow> string \<Rightarrow> bool" where
  "str_in pat [] = (pat = [])"
| "str_in pat (c # cs) = (starts_with pat (c # cs) \<or> str_in pat cs)"

text \<open>
  \<^verbatim>\<open>s.replace(old, new)\<close> for a non-empty \<open>old\<close>: every occurrence, left to right,
  without overlap.
\<close>

fun replace :: "string \<Rightarrow> string \<Rightarrow> string \<Rightarrow> string" where
  "replace old new [] = []"
| "replace old new (c # cs) =
     (if starts_with old (c # cs) \<and> old \<noteq> []
      then new @ replace old new (drop (length old) (c # cs))
      else c # replace old new cs)"

text \<open>
  \<^verbatim>\<open>line.split("=", 1)\<close>: at most one split, at the first separator; a line without
  the separator comes back whole, as a list of one element.
\<close>

definition split1 :: "char \<Rightarrow> string \<Rightarrow> string list" where
  "split1 sep line =
     (if sep \<in> set line
      then [takeWhile (\<lambda>c. c \<noteq> sep) line, tl (dropWhile (\<lambda>c. c \<noteq> sep) line)]
      else [line])"

text \<open>
  \<^verbatim>\<open>output.splitlines()\<close>: the line boundaries of Python in the 8-bit range are
  LF, CR, CR LF (one boundary), VT, FF, FS, GS, RS and NEL; the boundaries are removed and
  a final boundary does not open an empty last line.
\<close>

definition is_linebreak :: "char \<Rightarrow> bool" where
  "is_linebreak c \<longleftrightarrow>
     c \<in> {CHR 0x0A, CHR 0x0D, CHR 0x0B, CHR 0x0C, CHR 0x1C, CHR 0x1D, CHR 0x1E, CHR 0x85}"

fun splitlines_from :: "string \<Rightarrow> string \<Rightarrow> string list" where
  "splitlines_from cur [] = (if cur = [] then [] else [rev cur])"
| "splitlines_from cur [c] = (if is_linebreak c then [rev cur] else [rev (c # cur)])"
| "splitlines_from cur (c # d # cs) =
     (if c = CHR 0x0D \<and> d = CHR 0x0A then rev cur # splitlines_from [] cs
      else if is_linebreak c then rev cur # splitlines_from [] (d # cs)
      else splitlines_from (c # cur) (d # cs))"

definition splitlines :: "string \<Rightarrow> string list" where
  "splitlines s = splitlines_from [] s"

subsection \<open>Path operations (\<^verbatim>\<open>os.path\<close> on Windows, for paths without a drive)\<close>

definition is_sep :: "char \<Rightarrow> bool" where
  "is_sep c \<longleftrightarrow> c = CHR ''/'' \<or> c = bsl"

text \<open>\<^verbatim>\<open>os.path.basename(p)\<close>: what follows the last separator.\<close>

definition basename :: "string \<Rightarrow> string" where
  "basename p = rev (takeWhile (\<lambda>c. \<not> is_sep c) (rev p))"

text \<open>
  \<^verbatim>\<open>os.path.splitext(p)[0]\<close>: the path without its extension. The extension starts
  at the last dot of the last component; leading dots of that component do not start one.
\<close>

definition splitext_root :: "string \<Rightarrow> string" where
  "splitext_root p =
     (let fname = basename p;
          ext = rev (takeWhile (\<lambda>c. c \<noteq> CHR ''.'') (rev fname));
          stem = take (length fname - length ext - 1) fname
      in if CHR ''.'' \<in> set fname \<and> dropWhile (\<lambda>c. c = CHR ''.'') stem \<noteq> []
         then take (length p - length ext - 1) p
         else p)"

section \<open>The external world\<close>

text \<open>
  What a finished child process reports (\<^verbatim>\<open>subprocess.CompletedProcess\<close>), and what
  starting a program from an argument list can do: run to completion, or fail to start
  because the program is not found (\<^verbatim>\<open>FileNotFoundError\<close>) or for another reason
  of the operating system (\<^verbatim>\<open>OSError\<close>).
\<close>

record completed =
  returncode :: int
  stdout :: string
  stderr :: string

datatype started = Completed completed | NotFound | StartError

text \<open>
  The operations of the world:
  \<^item> \<open>path_exists\<close> is \<^verbatim>\<open>os.path.exists\<close>;
  \<^item> \<open>popen\<close> starts a program from an argument list with an environment and waits;
  \<^item> \<open>shell\<close> hands a command line to the command interpreter (\<^verbatim>\<open>shell=True\<close>) and
    waits: the interpreter itself always starts, and reports a program it cannot find
    through its return code;
  \<^item> \<open>glob\<close> is \<^verbatim>\<open>glob.glob\<close>;
  \<^item> \<open>normpath\<close> is \<^verbatim>\<open>os.path.normpath\<close>;
  \<^item> \<open>exn_text\<close> is the message Python gives the exception that a command raised
    (what \<^verbatim>\<open>print(e)\<close> shows);
  \<^item> \<open>encodekey\<close> is the form \<^verbatim>\<open>os.environ\<close> gives a variable's name before it
    stores it (upper case on Windows, the name itself elsewhere);
  \<^item> \<open>putenv\<close> is \<^verbatim>\<open>os.putenv\<close> on an encoded name and a value: \<open>None\<close> when the
    platform sets the variable, the exception raised when it refuses. Every platform
    refuses the empty name (\<^verbatim>\<open>ValueError\<close> on Windows, \<^verbatim>\<open>OSError\<close> from
    \<^verbatim>\<open>setenv\<close> elsewhere); it may refuse others, such as one with a NUL character.
  A child process may change the world (it writes files), so \<open>popen\<close> and \<open>shell\<close>
  return the next world state.
\<close>

record 'w os =
  path_exists :: "string \<Rightarrow> 'w \<Rightarrow> bool"
  popen :: "string list \<Rightarrow> env \<Rightarrow> 'w \<Rightarrow> started \<times> 'w"
  shell :: "string \<Rightarrow> env \<Rightarrow> 'w \<Rightarrow> completed \<times> 'w"
  glob :: "string \<Rightarrow> 'w \<Rightarrow> string list"
  normpath :: "string \<Rightarrow> string"
  exn_text :: "string list \<Rightarrow> exn \<Rightarrow> string"
  encodekey :: "string \<Rightarrow> string"
  putenv :: "string \<Rightarrow> string \<Rightarrow> exn option"

text \<open>
  The state of the harness process: the world, \<^verbatim>\<open>os.environ\<close>, the lines printed so
  far (one entry for each call of \<^verbatim>\<open>print\<close>) and the child processes requested so
  far, in order.
\<close>

datatype call = Argv "string list" | Shell string

record 'w proc =
  world :: 'w
  environ :: env
  printed :: "string list"
  spawned :: "call list"

definition print :: "string \<Rightarrow> 'w proc \<Rightarrow> 'w proc" where
  "print s st = st\<lparr>printed := printed st @ [s]\<rparr>"

text \<open>\<^verbatim>\<open>subprocess.run(argv)\<close> with the inherited environment.\<close>

definition subprocess_run :: "'w os \<Rightarrow> string list \<Rightarrow> 'w proc \<Rightarrow> (exn + completed) \<times> 'w proc" where
  "subprocess_run os argv st =
     (let (r, w) = popen os argv (environ st) (world st);
          st' = st\<lparr>world := w, spawned := spawned st @ [Argv argv]\<rparr>
      in case r of
           Completed c \<Rightarrow> (Inr c, st')
         | NotFound \<Rightarrow> (Inl FileNotFoundError, st')
         | StartError \<Rightarrow> (Inl OSError, st'))"

text \<open>\<^verbatim>\<open>subprocess.check_call(argv)\<close>: a non-zero return code raises.\<close>

definition check_call :: "'w os \<Rightarrow> string list \<Rightarrow> 'w proc \<Rightarrow> (exn + unit) \<times> 'w proc" where
  "check_call os argv st =
     (case subprocess_run os argv st of
        (Inl e, st') \<Rightarrow> (Inl e, st')
      | (Inr c, st') \<Rightarrow>
          if returncode c \<noteq> 0 then (Inl (CalledProcessError (returncode c)), st')
          else (Inr (), st'))"

text \<open>\<^verbatim>\<open>subprocess.run(cmd, shell=True, env=env)\<close>; \<open>None\<close> inherits \<^verbatim>\<open>os.environ\<close>.\<close>

definition shell_run :: "'w os \<Rightarrow> string \<Rightarrow> env option \<Rightarrow> 'w proc \<Rightarrow> completed \<times> 'w proc" where
  "shell_run os cmd envopt st =
     (let e = (case envopt of None \<Rightarrow> environ st | Some e' \<Rightarrow> e');
          (c, w) = shell os cmd e (world st)
      in (c, st\<lparr>world := w, spawned := spawned st @ [Shell cmd]\<rparr>))"

text \<open>\<^verbatim>\<open>subprocess.check_output(cmd, shell=True, text=True)\<close>.\<close>

definition check_output :: "'w os \<Rightarrow> string \<Rightarrow> 'w proc \<Rightarrow> (exn + string) \<times> 'w proc" where
  "check_output os cmd st =
     (let (c, st') = shell_run os cmd None st
      in if returncode c \<noteq> 0 then (Inl (CalledProcessError (returncode c)), st')
         else (Inr (stdout c), st'))"

section \<open>The environment bootstrap (both harnesses)\<close>

text \<open>
  Both \<^verbatim>\<open>main\<close> functions begin with the same lines:
  \<^verbatim>\<open>
  vcvars_path = r"C:\Program Files\...\Build\vcvars64.bat"
  if os.path.exists(vcvars_path):
      output = subprocess.check_output(f'"{vcvars_path}" && set', shell=True, text=True)
      for line in output.splitlines():
          if "=" in line:
              key, value = line.split("=", 1)
              os.environ[key] = value
  \<close>
\<close>

definition vcvars_path :: string where
  "vcvars_path =
     ''C:'' @ [bsl] @ ''Program Files'' @ [bsl] @ ''Microsoft Visual Studio'' @ [bsl] @
     ''2022'' @ [bsl] @ ''Community'' @ [bsl] @ ''VC'' @ [bsl] @ ''Auxiliary'' @ [bsl] @
     ''Build'' @ [bsl] @ ''vcvars64.bat''"

text \<open>
  \<^verbatim>\<open>os.environ[key] = value\<close>: the name is encoded, the platform is asked to set the
  variable, and only then is the value stored under the encoded name.
\<close>

definition environ_set :: "'w os \<Rightarrow> string \<Rightarrow> string \<Rightarrow> env \<Rightarrow> exn + env" where
  "environ_set os key val e =
     (case putenv os (encodekey os key) val of
        Some ex \<Rightarrow> Inl ex
      | None \<Rightarrow> Inr (e(encodekey os key \<mapsto> val)))"

text \<open>
  The loop over the lines, with the environment as it is when the loop ends or an
  exception leaves it. Unpacking \<^verbatim>\<open>key, value = ...\<close> raises \<^verbatim>\<open>ValueError\<close> unless
  the list has exactly two elements.
\<close>

fun merge_lines :: "'w os \<Rightarrow> string list \<Rightarrow> env \<Rightarrow> (exn + unit) \<times> env" where
  "merge_lines os [] e = (Inr (), e)"
| "merge_lines os (line # rest) e =
     (if CHR ''='' \<in> set line
      then (case split1 CHR ''='' line of
              [key, val] \<Rightarrow>
                (case environ_set os key val e of
                   Inl ex \<Rightarrow> (Inl ex, e)
                 | Inr e' \<Rightarrow> merge_lines os rest e')
            | _ \<Rightarrow> (Inl ValueError, e))
      else merge_lines os rest e)"

definition bootstrap :: "'w os \<Rightarrow> 'w proc \<Rightarrow> (exn + unit) \<times> 'w proc" where
  "bootstrap os st =
     (if path_exists os vcvars_path (world st)
      then (case check_output os ([dquote] @ vcvars_path @ [dquote] @ '' && set'') st of
              (Inl e, st1) \<Rightarrow> (Inl e, st1)
            | (Inr output, st1) \<Rightarrow>
                (case merge_lines os (splitlines output) (environ st1) of
                   (r, e') \<Rightarrow> (r, st1\<lparr>environ := e'\<rparr>)))
      else (Inr (), st))"

text \<open>
  The bootstrap as the specification words it: every line with an \<open>=\<close> is the pair of
  what precedes the first \<open>=\<close> and what follows it, lines without \<open>=\<close> are ignored,
  and the pairs are merged into the environment, a later pair for a key overwriting an
  earlier one and the prior value. The keys are taken in the form \<open>enc\<close> in which the
  environment keeps its names.
\<close>

definition spec_pairs :: "string list \<Rightarrow> (string \<times> string) list" where
  "spec_pairs lines =
     map (\<lambda>l. (takeWhile (\<lambda>c. c \<noteq> CHR ''='') l, tl (dropWhile (\<lambda>c. c \<noteq> CHR ''='') l)))
       (filter (\<lambda>l. CHR ''='' \<in> set l) lines)"

definition spec_merge :: "(string \<Rightarrow> string) \<Rightarrow> env \<Rightarrow> string list \<Rightarrow> env" where
  "spec_merge enc e lines = e ++ map_of (rev (map (\<lambda>(k, v). (enc k, v)) (spec_pairs lines)))"

section \<open>The lenient harness: \<^verbatim>\<open>tests/test_asm_execution.py\<close>\<close>

definition COMPILER :: string where
  "COMPILER = ''build'' @ [bsl] @ ''Release'' @ [bsl] @ ''fadors99.exe''"

definition ASSEMBLER :: string where
  "ASSEMBLER = ''ml64''"

definition LINKER :: string where
  "LINKER = ''link''"

text \<open>The file names \<^verbatim>\<open>run_test\<close> derives from the source file.\<close>

definition asm_file :: "string \<Rightarrow> string" where
  "asm_file c_file = splitext_root c_file @ ''.asm''"

definition obj_file :: "string \<Rightarrow> string" where
  "obj_file c_file = splitext_root c_file @ ''.obj''"

definition exe_file :: "string \<Rightarrow> string" where
  "exe_file c_file = splitext_root c_file @ ''.exe''"

text \<open>The four command lines of \<^verbatim>\<open>run_test\<close>.\<close>

definition compile_argv :: "string \<Rightarrow> string list" where
  "compile_argv c_file = [COMPILER, c_file, ''--masm'']"

definition assemble_argv :: "string \<Rightarrow> string list" where
  "assemble_argv c_file = [ASSEMBLER, ''/c'', ''/nologo'', ''/Fo'' @ obj_file c_file, asm_file c_file]"

definition link_argv :: "string \<Rightarrow> string list" where
  "link_argv c_file =
     [LINKER, ''/nologo'', ''/entry:main'', ''/subsystem:console'', ''/out:'' @ exe_file c_file,
      obj_file c_file]"

definition execute_argv :: "string \<Rightarrow> string list" where
  "execute_argv c_file = [exe_file c_file]"

text \<open>
  The chain of checks keyed on the file name in step 4: the first rule whose name occurs
  in \<open>c_file\<close> and whose code differs from \<open>ret_code\<close> gives the expected code that is
  reported; \<open>None\<close> when no check fails.
\<close>

definition failed_expectation :: "string \<Rightarrow> int \<Rightarrow> int option" where
  "failed_expectation c_file ret_code =
     (if str_in ''01_return'' c_file \<and> ret_code \<noteq> 42 then Some 42
      else if str_in ''07_function'' c_file \<and> ret_code \<noteq> 123 then Some 123
      else if str_in ''17_for'' c_file \<and> ret_code \<noteq> 45 then Some 45
      else if str_in ''18_typedef'' c_file \<and> ret_code \<noteq> 42 then Some 42
      else if str_in ''19_array'' c_file \<and> ret_code \<noteq> 100 then Some 100
      else if str_in ''20_switch'' c_file \<and> ret_code \<noteq> 120 then Some 120
      else if str_in ''21_enum'' c_file \<and> ret_code \<noteq> 6 then Some 6
      else if str_in ''22_union'' c_file \<and> ret_code \<noteq> 42 then Some 42
      else if str_in ''23_pointer_math'' c_file \<and> ret_code \<noteq> 0 then Some 0
      else None)"

text \<open>
  Step 4 of \<^verbatim>\<open>run_test\<close>: run the executable; \<^verbatim>\<open>except OSError\<close> catches every
  failure to start it.
\<close>

definition run_test_execute :: "'w os \<Rightarrow> string \<Rightarrow> 'w proc \<Rightarrow> (exn + bool) \<times> 'w proc" where
  "run_test_execute os c_file st =
     (case subprocess_run os (execute_argv c_file) st of
        (Inr result, st1) \<Rightarrow>
          (let ret_code = returncode result;
               st2 = print (''  Exit Code: '' @ str_int ret_code) st1
           in case failed_expectation c_file ret_code of
                Some expected \<Rightarrow>
                  (Inr False,
                   print (''FAILED: Expected exit code '' @ str_int expected @ '', got '' @
                          str_int ret_code) st2)
              | None \<Rightarrow> (Inr True, print ''PASSED'' st2))
      | (Inl e, st1) \<Rightarrow>
          if is_OSError e
          then (Inr False,
                print (''FAILED: Execution of '' @ exe_file c_file @ '': '' @
                       exn_text os (execute_argv c_file) e) st1)
          else (Inl e, st1))"

text \<open>Step 3: link; only \<^verbatim>\<open>CalledProcessError\<close> is caught.\<close>

definition run_test_link :: "'w os \<Rightarrow> string \<Rightarrow> 'w proc \<Rightarrow> (exn + bool) \<times> 'w proc" where
  "run_test_link os c_file st =
     (case check_call os (link_argv c_file) st of
        (Inl e, st1) \<Rightarrow>
          if is_CalledProcessError e
          then (Inr False, print (''FAILED: Linking of '' @ obj_file c_file) st1)
          else (Inl e, st1)
      | (Inr u, st1) \<Rightarrow> run_test_execute os c_file st1)"

text \<open>
  Step 2: assemble; \<^verbatim>\<open>FileNotFoundError\<close> is the skip, \<^verbatim>\<open>CalledProcessError\<close>
  the failure, and nothing else is caught.
\<close>

definition run_test_assemble :: "'w os \<Rightarrow> string \<Rightarrow> 'w proc \<Rightarrow> (exn + bool) \<times> 'w proc" where
  "run_test_assemble os c_file st =
     (case check_call os (assemble_argv c_file) st of
        (Inl e, st1) \<Rightarrow>
          if e = FileNotFoundError
          then (Inr True, print ''SKIPPED: ml not found in PATH'' st1)
          else if is_CalledProcessError e
          then (Inr False,
                print (exn_text os (assemble_argv c_file) e)
                  (print (''FAILED: Assembly of '' @ asm_file c_file) st1))
          else (Inl e, st1)
      | (Inr u, st1) \<Rightarrow> run_test_link os c_file st1)"

text \<open>
  What follows the compiler call in \<^verbatim>\<open>run_test\<close>: go on when the assembly file
  exists (the source tests that twice).
\<close>

definition run_test_check_asm :: "'w os \<Rightarrow> string \<Rightarrow> 'w proc \<Rightarrow> (exn + bool) \<times> 'w proc" where
  "run_test_check_asm os c_file st =
     (if \<not> path_exists os (asm_file c_file) (world st)
      then (Inr False,
            print (''FAILED: ASM file '' @ asm_file c_file @ '' not created (Compiler error)'') st)
      else if \<not> path_exists os (asm_file c_file) (world st)
      then (Inr False, print (''FAILED: ASM file '' @ asm_file c_file @ '' not created'') st)
      else run_test_assemble os c_file st)"

text \<open>
  \<^verbatim>\<open>run_test\<close>, from step 1: compile to assembly; \<^verbatim>\<open>CalledProcessError\<close> is caught
  and ignored, any other exception leaves the function.
\<close>

definition run_test :: "'w os \<Rightarrow> string \<Rightarrow> 'w proc \<Rightarrow> (exn + bool) \<times> 'w proc" where
  "run_test os c_file st =
     (case check_call os (compile_argv c_file) (print (''Testing '' @ c_file @ ''...'') st) of
        (Inl e, st1) \<Rightarrow>
          if is_CalledProcessError e then run_test_check_asm os c_file st1 else (Inl e, st1)
      | (Inr u, st1) \<Rightarrow> run_test_check_asm os c_file st1)"

text \<open>
  \<^verbatim>\<open>main\<close> of the lenient harness. \<open>Inr n\<close> is the exit status of the process
  (\<^verbatim>\<open>sys.exit(n)\<close>, or 0 when the script runs to its end); \<open>Inl e\<close> is an exception
  nothing caught, which ends the process with a traceback.
\<close>

definition test_whitelist :: "string list" where
  "test_whitelist =
     [''01_return.c'', ''07_function.c'', ''11_nested_struct.c'', ''17_for.c'', ''18_typedef.c'',
      ''19_array.c'', ''20_switch.c'', ''21_enum.c'', ''22_union.c'', ''23_pointer_math.c'']"

fun asm_loop :: "'w os \<Rightarrow> string list \<Rightarrow> nat \<Rightarrow> nat \<Rightarrow> 'w proc \<Rightarrow> (exn + nat \<times> nat) \<times> 'w proc" where
  "asm_loop os [] passed total' st = (Inr (passed, total'), st)"
| "asm_loop os (c_file # rest) passed total' st =
     (if basename c_file \<in> set test_whitelist
      then (case run_test os c_file st of
              (Inl e, st1) \<Rightarrow> (Inl e, st1)
            | (Inr ok, st1) \<Rightarrow>
                asm_loop os rest (if ok then passed + 1 else passed) (total' + 1) st1)
      else asm_loop os rest passed total' st)"

definition asm_main :: "'w os \<Rightarrow> 'w proc \<Rightarrow> (exn + int) \<times> 'w proc" where
  "asm_main os st =
     (case bootstrap os st of
        (Inl e, st1) \<Rightarrow> (Inl e, st1)
      | (Inr u, st1) \<Rightarrow>
          if \<not> path_exists os COMPILER (world st1)
          then (Inr 1, print (''Compiler not found at '' @ COMPILER) st1)
          else (case asm_loop os (glob os ''tests/*.c'' (world st1)) 0 0 st1 of
                  (Inl e, st2) \<Rightarrow> (Inl e, st2)
                | (Inr (passed, total'), st2) \<Rightarrow>
                    (let st3 = print ([newline] @ ''Summary: '' @ str_int (int passed) @ ''/'' @
                                      str_int (int total') @
                                      '' tests passed (compiled & maybe executed)'') st2
                     in if passed < total' then (Inr 1, st3) else (Inr 0, st3))))"

section \<open>The strict harness: \<^verbatim>\<open>verify_coff.py\<close>\<close>

definition tests :: "(string \<times> int) list" where
  "tests =
     [(''tests/01_return.c'', 42),
      (''tests/02_arithmetic.c'', 7),
      (''tests/03_variables.c'', 30),
      (''tests/04_if.c'', 100),
      (''tests/06_while.c'', 10),
      (''tests/07_function.c'', 123),
      (''tests/12_string.c'', 72),
      (''tests/14_params.c'', 10),
      (''tests/15_nested_calls.c'', 10),
      (''tests/19_array.c'', 100),
      (''tests/20_switch.c'', 120),
      (''tests/21_enum.c'', 6),
      (''tests/22_union.c'', 42),
      (''tests/23_pointer_math.c'', 0)]"

definition fadors :: string where
  "fadors = ''build'' @ [bsl] @ ''Release'' @ [bsl] @ ''fadors99.exe''"

text \<open>\<^verbatim>\<open>run_cmd(cmd, env)\<close>: print the command, run it through the shell.\<close>

definition run_cmd :: "'w os \<Rightarrow> string \<Rightarrow> env option \<Rightarrow> 'w proc \<Rightarrow> completed \<times> 'w proc" where
  "run_cmd os cmd envopt st = shell_run os cmd envopt (print (''[CMD] '' @ cmd) st)"

text \<open>
  The exit code as the harness compares it:
  \<^verbatim>\<open>
  actual_code = res.returncode & 0xFFFFFFFF
  if actual_code > 0x7FFFFFFF:
       actual_code -= 0x100000000
  \<close>
\<close>

definition normalize_exit_code :: "int \<Rightarrow> int" where
  "normalize_exit_code rc =
     (let actual_code = rc AND 0xFFFFFFFF
      in if actual_code > 0x7FFFFFFF then actual_code - 0x100000000 else actual_code)"

definition compile_cmd :: "string \<Rightarrow> string" where
  "compile_cmd test_path = fadors @ '' '' @ test_path @ '' --obj''"

definition exe_path :: "string \<Rightarrow> string" where
  "exe_path test_path = replace ''.c'' ''.exe'' test_path"

text \<open>The lines a failed comparison prints: the message, then the captured output that is not empty.\<close>

definition print_failure :: "string \<Rightarrow> int \<Rightarrow> int \<Rightarrow> completed \<Rightarrow> 'w proc \<Rightarrow> 'w proc" where
  "print_failure name actual_code expected_code res st =
     (let st1 = print (''FAILURE: '' @ name @ '' returned '' @ str_int actual_code @
                       '', expected '' @ str_int expected_code) st;
          st2 = (if stdout res \<noteq> [] then print (''STDOUT: '' @ stdout res) st1 else st1)
      in if stderr res \<noteq> [] then print (''STDERR: '' @ stderr res) st2 else st2)"

text \<open>The body of the loop over the tests: one test, one more entry in \<open>results\<close>.\<close>

definition coff_test ::
  "'w os \<Rightarrow> env \<Rightarrow> string \<Rightarrow> int \<Rightarrow> (string \<times> string) list \<Rightarrow> 'w proc
     \<Rightarrow> (string \<times> string) list \<times> 'w proc" where
  "coff_test os e test_path expected_code results st =
     (let name = basename test_path;
          (res, st1) = run_cmd os (compile_cmd test_path) (Some e)
                         (print (''--- Running '' @ name @ '' ---'') st)
      in if returncode res \<noteq> 0
         then (results @ [(name, ''FAIL (Comp)'')],
               print (''Compilation failed for '' @ name @ '':'' @ [newline] @ stdout res @
                      [newline] @ stderr res) st1)
         else if \<not> path_exists os (exe_path test_path) (world st1)
         then (results @ [(name, ''FAIL (EXE missing)'')],
               print (''EXE not found for '' @ name) st1)
         else (let (res2, st2) = run_cmd os (normpath os (exe_path test_path)) None st1;
                   actual_code = normalize_exit_code (returncode res2)
               in if actual_code = expected_code
                  then (results @ [(name, ''PASS'')],
                        print (''SUCCESS: '' @ name @ '' returned '' @ str_int actual_code) st2)
                  else (results @ [(name, ''FAIL (Got '' @ str_int actual_code @ '')'')],
                        print_failure name actual_code expected_code res2 st2)))"

fun coff_loop ::
  "'w os \<Rightarrow> env \<Rightarrow> (string \<times> int) list \<Rightarrow> (string \<times> string) list \<Rightarrow> 'w proc
     \<Rightarrow> (string \<times> string) list \<times> 'w proc" where
  "coff_loop os e [] results st = (results, st)"
| "coff_loop os e ((test_path, expected_code) # rest) results st =
     (let (results', st') = coff_test os e test_path expected_code results st
      in coff_loop os e rest results' st')"

text \<open>The report: one line for each result, \<^verbatim>\<open>f"{name:25} : {status}"\<close>, and the flag.\<close>

definition ljust :: "nat \<Rightarrow> string \<Rightarrow> string" where
  "ljust n s = s @ replicate (n - length s) CHR '' ''"

fun report_loop :: "(string \<times> string) list \<Rightarrow> bool \<Rightarrow> 'w proc \<Rightarrow> bool \<times> 'w proc" where
  "report_loop [] all_pass st = (all_pass, st)"
| "report_loop ((name, status) # rest) all_pass st =
     report_loop rest (if status \<noteq> ''PASS'' then False else all_pass)
       (print (ljust 25 name @ '' : '' @ status) st)"

definition coff_report :: "(string \<times> string) list \<Rightarrow> 'w proc \<Rightarrow> int \<times> 'w proc" where
  "coff_report results st =
     (let st1 = print (replicate 20 CHR ''='')
                  (print ''FINAL TEST RESULTS (COFF BACKEND)''
                     (print ([newline] @ replicate 20 CHR ''='') st));
          (all_pass, st2) = report_loop results True st1
      in if all_pass then (0, print ([newline] @ ''ALL COFF TESTS PASSED!'') st2)
         else (1, print ([newline] @ ''SOME TESTS FAILED.'') st2))"

text \<open>
  The tests of \<^verbatim>\<open>main\<close>, up to the report: bootstrap, copy the environment and set
  \<^verbatim>\<open>FADORS_LINKER\<close> in the copy, run the loop from an empty list of results.
\<close>

definition coff_results ::
  "'w os \<Rightarrow> (string \<times> int) list \<Rightarrow> 'w proc \<Rightarrow> (exn + (string \<times> string) list) \<times> 'w proc" where
  "coff_results os ts st =
     (case bootstrap os st of
        (Inl e, st1) \<Rightarrow> (Inl e, st1)
      | (Inr u, st1) \<Rightarrow>
          (let e = (environ st1)(''FADORS_LINKER'' \<mapsto> ''link'');
               (results, st2) = coff_loop os e ts [] st1
           in (Inr results, st2)))"

text \<open>\<^verbatim>\<open>main\<close> of the strict harness, with the result read as for the lenient one.\<close>

definition coff_main :: "'w os \<Rightarrow> 'w proc \<Rightarrow> (exn + int) \<times> 'w proc" where
  "coff_main os st =
     (case coff_results os tests st of
        (Inl e, st1) \<Rightarrow> (Inl e, st1)
      | (Inr results, st1) \<Rightarrow>
          (let (status, st2) = coff_report results st1 in (Inr status, st2)))"


section \<open>Notions for stating the properties\<close>

text \<open>
  The stage plan of \<^verbatim>\<open>run_test\<close>: the four child processes in the order
  compile, assemble, link, execute; and the plan of one test of the strict harness, where
  the compiler links by itself: compile, execute.
\<close>

definition asm_plan :: "string \<Rightarrow> call list" where
  "asm_plan c_file =
     [Argv (compile_argv c_file), Argv (assemble_argv c_file), Argv (link_argv c_file),
      Argv (execute_argv c_file)]"

definition coff_plan :: "'w os \<Rightarrow> string \<Rightarrow> call list" where
  "coff_plan os test_path = [Shell (compile_cmd test_path), Shell (normpath os (exe_path test_path))]"

text \<open>The names the checks of step 4 of \<^verbatim>\<open>run_test\<close> are keyed on.\<close>

definition rule_names :: "string list" where
  "rule_names =
     [''01_return'', ''07_function'', ''17_for'', ''18_typedef'', ''19_array'', ''20_switch'',
      ''21_enum'', ''22_union'', ''23_pointer_math'']"


text \<open>
  A small world for concrete runs: a fixed set of existing files, a table of what each
  program does when started, a table of what each shell command returns, and the files
  \<^verbatim>\<open>glob\<close> finds. Its child processes leave the files as they are. Its environment
  is that of Windows: names are kept in upper case (here for the letters a to z), and the
  empty name and a NUL character are refused with \<^verbatim>\<open>ValueError\<close>.
\<close>

definition ascii_upper :: "char \<Rightarrow> char" where
  "ascii_upper c =
     (case map_of (zip ''abcdefghijklmnopqrstuvwxyz'' ''ABCDEFGHIJKLMNOPQRSTUVWXYZ'') c of
        Some u \<Rightarrow> u
      | None \<Rightarrow> c)"

definition exited :: "int \<Rightarrow> completed" where
  "exited n = \<lparr>returncode = n, stdout = [], stderr = []\<rparr>"

definition sample_os ::
  "string list \<Rightarrow> (string list \<Rightarrow> started) \<Rightarrow> (string \<Rightarrow> completed) \<Rightarrow> string list \<Rightarrow> unit os" where
  "sample_os files prog sh found =
     \<lparr>path_exists = (\<lambda>p w. p \<in> set files),
      popen = (\<lambda>argv e w. (prog argv, w)),
      shell = (\<lambda>cmd e w. (sh cmd, w)),
      glob = (\<lambda>pat w. found),
      normpath = map (\<lambda>c. if c = CHR ''/'' then bsl else c),
      exn_text = (\<lambda>argv e. ''cannot start''),
      encodekey = map ascii_upper,
      putenv = (\<lambda>k v. if k = [] \<or> CHR 0x00 \<in> set k \<or> CHR 0x00 \<in> set v then Some ValueError
                       else None)\<rparr>"

definition start :: "unit proc" where
  "start = \<lparr>world = (), environ = Map.empty, printed = [], spawned = []\<rparr>"

text \<open>
  Three such worlds. In the first the compiler, the assembler and the linker all return 0,
  the assembly file of \<^verbatim>\<open>tests/01_return.c\<close> exists, and neither an object file nor an
  executable does. In the second every shell command returns 1 although the assembly
  file and the executable of \<^verbatim>\<open>tests/01_return.c\<close> exist. In the third no file exists,
  the compiler least of all, and the shell returns 1 for every command.
\<close>

definition os_no_exe :: "unit os" where
  "os_no_exe =
     sample_os [''tests/01_return.asm'']
       (\<lambda>argv. if hd argv \<in> {COMPILER, ASSEMBLER, LINKER} then Completed (exited 0) else NotFound)
       (\<lambda>cmd. exited 0) []"

definition os_compile_nonzero :: "unit os" where
  "os_compile_nonzero =
     sample_os [''tests/01_return.asm'', ''tests/01_return.exe'']
       (\<lambda>argv. Completed (exited 1)) (\<lambda>cmd. exited 1) []"

definition os_no_compiler :: "unit os" where
  "os_no_compiler = sample_os [] (\<lambda>argv. NotFound) (\<lambda>cmd. exited 1) []"

text \<open>
  A fourth: the bootstrap command exists, and the one line of its output begins with
  \<open>=\<close>.
\<close>

definition os_empty_key :: "unit os" where
  "os_empty_key =
     sample_os [vcvars_path] (\<lambda>argv. NotFound)
       (\<lambda>cmd. \<lparr>returncode = 0, stdout = ''=x'' @ [newline], stderr = []\<rparr>) []"

section \<open>The normalised exit code\<close>

lemma and_mask32: "(x::int) AND 0xFFFFFFFF = x mod 4294967296"
proof -
  have "(0xFFFFFFFF::int) = mask 32" by (simp add: mask_eq_exp_minus_1)
  then have "x AND 0xFFFFFFFF = take_bit 32 x" by (simp only: take_bit_eq_mask)
  then show ?thesis by (simp add: take_bit_eq_mod)
qed

lemma normalize_exit_code_mod:
  "normalize_exit_code rc =
     (if rc mod 4294967296 > 2147483647 then rc mod 4294967296 - 4294967296 else rc mod 4294967296)"
  by (simp add: normalize_exit_code_def and_mask32 Let_def)

lemma normalize_exit_code_range:
  "- 2147483648 \<le> normalize_exit_code rc \<and> normalize_exit_code rc \<le> 2147483647"
proof -
  have "0 \<le> rc mod 4294967296" "rc mod 4294967296 < 4294967296" by simp_all
  then show ?thesis unfolding normalize_exit_code_mod by auto
qed

lemma normalize_exit_code_id:
  assumes "- 2147483648 \<le> x" "x \<le> 2147483647"
  shows "normalize_exit_code x = x"
proof (cases "0 \<le> x")
  case True
  with assms have "x mod 4294967296 = x" by simp
  with assms show ?thesis by (simp add: normalize_exit_code_mod)
next
  case False
  with assms have "(x + 4294967296) mod 4294967296 = x + 4294967296"
    by (intro mod_pos_pos_trivial) auto
  then have "x mod 4294967296 = x + 4294967296" by simp
  with False assms show ?thesis by (simp add: normalize_exit_code_mod)
qed

text \<open>
  C1. For every raw termination status \<open>s\<close> that is an unsigned 32-bit value, the
  normalised exit code (mask to 32 bits, subtract \<open>2^32\<close> when the masked value exceeds
  \<open>0x7FFFFFFF\<close>) lies in \<open>[-2^31, 2^31 - 1]\<close>; and on every \<open>x\<close> already in the
  signed 32-bit range the normalisation is the identity.
\<close>

theorem normalize_exit_code_signed32:
  "(0 \<le> s \<and> s < 2 ^ 32 \<longrightarrow>
      - (2 ^ 31) \<le> normalize_exit_code s \<and> normalize_exit_code s \<le> 2 ^ 31 - 1) \<and>
   (- (2 ^ 31) \<le> x \<and> x \<le> 2 ^ 31 - 1 \<longrightarrow> normalize_exit_code x = x)"
  using normalize_exit_code_range [of s] normalize_exit_code_id [of x] by simp

theorem normalize_exit_code_signed32_witness:
  "(0::int) \<le> 3221225477 \<and> (3221225477::int) < 2 ^ 32 \<and>
   - (2 ^ 31) \<le> normalize_exit_code 3221225477 \<and> normalize_exit_code 3221225477 \<le> 2 ^ 31 - 1 \<and>
   - (2 ^ 31) \<le> (- 5::int) \<and> (- 5::int) \<le> 2 ^ 31 - 1 \<and> normalize_exit_code (- 5) = - 5"
  using normalize_exit_code_signed32 [of 3221225477 "- 5"] by simp

section \<open>The child processes of one test\<close>

lemma print_fields [simp]:
  "spawned (print s st) = spawned st" "world (print s st) = world st"
  "environ (print s st) = environ st" "printed (print s st) = printed st @ [s]"
  by (simp_all add: print_def)

lemma subprocess_run_fields:
  "spawned (snd (subprocess_run os argv st)) = spawned st @ [Argv argv]"
  "environ (snd (subprocess_run os argv st)) = environ st"
  "printed (snd (subprocess_run os argv st)) = printed st"
  "world (snd (subprocess_run os argv st)) = snd (popen os argv (environ st) (world st))"
  by (simp_all add: subprocess_run_def Let_def split: prod.splits started.splits)

lemma subprocess_runD:
  assumes "subprocess_run os argv st = (r, st')"
  shows "spawned st' = spawned st @ [Argv argv]" "environ st' = environ st"
    "printed st' = printed st" "world st' = snd (popen os argv (environ st) (world st))"
  using subprocess_run_fields [of os argv st] assms by simp_all

lemma subprocess_run_result:
  "fst (subprocess_run os argv st) =
     (case fst (popen os argv (environ st) (world st)) of
        Completed c \<Rightarrow> Inr c
      | NotFound \<Rightarrow> Inl FileNotFoundError
      | StartError \<Rightarrow> Inl OSError)"
  by (simp add: subprocess_run_def Let_def split: prod.splits started.splits)

lemma check_call_fields:
  "spawned (snd (check_call os argv st)) = spawned st @ [Argv argv]"
  "environ (snd (check_call os argv st)) = environ st"
  "printed (snd (check_call os argv st)) = printed st"
  "world (snd (check_call os argv st)) = snd (popen os argv (environ st) (world st))"
  by (cases "subprocess_run os argv st"; use subprocess_run_fields [of os argv st] in
      \<open>simp add: check_call_def split: sum.splits\<close>)+

lemma check_call_result:
  "fst (check_call os argv st) =
     (case fst (popen os argv (environ st) (world st)) of
        Completed c \<Rightarrow> if returncode c \<noteq> 0 then Inl (CalledProcessError (returncode c)) else Inr ()
      | NotFound \<Rightarrow> Inl FileNotFoundError
      | StartError \<Rightarrow> Inl OSError)"
  by (simp add: check_call_def subprocess_run_def Let_def split: prod.splits started.splits)

lemma check_callD:
  assumes "check_call os argv st = (r, st')"
  shows "spawned st' = spawned st @ [Argv argv]" "environ st' = environ st"
    "printed st' = printed st" "world st' = snd (popen os argv (environ st) (world st))"
    "r = fst (check_call os argv st)"
  using check_call_fields [of os argv st] assms by simp_all

lemma check_call_not_ValueError: "fst (check_call os argv st) \<noteq> Inl ValueError"
  by (simp add: check_call_result split: started.splits)

lemma check_call_Inl_cases:
  assumes "check_call os argv st = (Inl e, st1)"
  shows "is_CalledProcessError e \<or> e = FileNotFoundError \<or> e = OSError"
  using assms check_call_not_ValueError [of os argv st] by (cases e) auto

lemma run_cmdD:
  assumes "run_cmd os cmd envopt st = (res, st')"
  shows "spawned st' = spawned st @ [Shell cmd]" "environ st' = environ st"
    "printed st' = printed st @ [''[CMD] '' @ cmd]"
  using assms by (auto simp add: run_cmd_def shell_run_def Let_def split: prod.splits)

lemma spawned_run_test_execute:
  "spawned (snd (run_test_execute os c_file st)) = spawned st @ [Argv (execute_argv c_file)]"
proof (cases "subprocess_run os (execute_argv c_file) st")
  case (Pair r st1)
  then have "spawned st1 = spawned st @ [Argv (execute_argv c_file)]"
    by (rule subprocess_runD(1))
  with Pair show ?thesis
    by (simp add: run_test_execute_def Let_def split: sum.splits option.splits)
qed

lemma spawned_run_test_link:
  "spawned (snd (run_test_link os c_file st)) =
     spawned st @ Argv (link_argv c_file) #
       (if fst (check_call os (link_argv c_file) st) = Inr () then [Argv (execute_argv c_file)]
        else [])"
proof (cases "check_call os (link_argv c_file) st")
  case (Pair r st1)
  then have "spawned st1 = spawned st @ [Argv (link_argv c_file)]"
    by (rule check_callD(1))
  with Pair show ?thesis
    by (simp add: run_test_link_def spawned_run_test_execute split: sum.splits)
qed

lemma spawned_run_test_assemble:
  assumes "check_call os (assemble_argv c_file) st = (r2, st2)"
      and "check_call os (link_argv c_file) st2 = (r3, st3)"
  shows "spawned (snd (run_test_assemble os c_file st)) =
     spawned st @ Argv (assemble_argv c_file) #
       (if r2 \<noteq> Inr () then []
        else Argv (link_argv c_file) # (if r3 \<noteq> Inr () then [] else [Argv (execute_argv c_file)]))"
proof -
  have s2: "spawned st2 = spawned st @ [Argv (assemble_argv c_file)]"
    using check_callD(1) [OF assms(1)] .
  show ?thesis
  proof (cases r2)
    case (Inl e)
    with assms(1) s2 show ?thesis by (simp add: run_test_assemble_def)
  next
    case (Inr u)
    with assms s2 show ?thesis
      using spawned_run_test_link [of os c_file st2]
      by (simp add: run_test_assemble_def)
  qed
qed

lemma spawned_run_test:
  assumes "check_call os (compile_argv c_file) (print (''Testing '' @ c_file @ ''...'') st) = (r1, st1)"
      and "check_call os (assemble_argv c_file) st1 = (r2, st2)"
      and "check_call os (link_argv c_file) st2 = (r3, st3)"
  shows "spawned (snd (run_test os c_file st)) =
     spawned st @
       take (if r1 = Inl FileNotFoundError \<or> r1 = Inl OSError \<or>
                \<not> path_exists os (asm_file c_file) (world st1) then 1
             else if r2 \<noteq> Inr () then 2
             else if r3 \<noteq> Inr () then 3
             else 4) (asm_plan c_file)"
proof -
  have s1: "spawned st1 = spawned st @ [Argv (compile_argv c_file)]"
    using check_callD(1) [OF assms(1)] by simp
  note asm = spawned_run_test_assemble [OF assms(2,3)]
  show ?thesis
  proof (cases r1)
    case (Inl e)
    from check_call_Inl_cases [of os _ _ e st1] assms(1) Inl
    have "is_CalledProcessError e \<or> e = FileNotFoundError \<or> e = OSError" by simp
    with Inl assms(1) s1 asm show ?thesis
      by (auto simp add: run_test_def run_test_check_asm_def asm_plan_def)
  next
    case (Inr u)
    with assms(1) s1 asm show ?thesis
      by (auto simp add: run_test_def run_test_check_asm_def asm_plan_def)
  qed
qed

lemma spawned_coff_test:
  assumes "run_cmd os (compile_cmd test_path) (Some e)
             (print (''--- Running '' @ basename test_path @ '' ---'') st) = (res, st1)"
  shows "spawned (snd (coff_test os e test_path expected_code results st)) =
     spawned st @
       take (if returncode res \<noteq> 0 \<or> \<not> path_exists os (exe_path test_path) (world st1) then 1
             else 2) (coff_plan os test_path)"
proof -
  obtain res2 st2 where r2: "run_cmd os (normpath os (exe_path test_path)) None st1 = (res2, st2)"
    by (cases "run_cmd os (normpath os (exe_path test_path)) None st1")
  have s1: "spawned st1 = spawned st @ [Shell (compile_cmd test_path)]"
    using run_cmdD(1) [OF assms] by simp
  have s2: "spawned st2 = spawned st1 @ [Shell (normpath os (exe_path test_path))]"
    using run_cmdD(1) [OF r2] .
  show ?thesis
    using assms r2 s1 s2
    by (simp add: coff_test_def Let_def coff_plan_def print_failure_def)
qed

text \<open>The definitions a concrete run in a sample world unfolds.\<close>

lemmas sample_run =
  run_test_def run_test_check_asm_def run_test_assemble_def run_test_link_def
  run_test_execute_def check_call_def subprocess_run_def sample_os_def start_def print_def
  exited_def compile_argv_def assemble_argv_def link_argv_def execute_argv_def
  asm_file_def obj_file_def exe_file_def splitext_root_def basename_def is_sep_def bsl_def
  COMPILER_def ASSEMBLER_def LINKER_def asm_plan_def Let_def
  coff_test_def run_cmd_def shell_run_def compile_cmd_def exe_path_def fadors_def coff_plan_def
  print_failure_def

text \<open>
  C6, as the code has it. The child processes of one test are a non-empty initial part
  of its stage plan, in the plan's order. In the lenient harness the plan is compile,
  assemble, link, execute, and what lets the next stage start is: the assembly file exists
  after the compiler ran (and the compiler could be started), the assembler returned 0,
  the linker returned 0. In the strict harness the plan is compile, execute, and the
  executable is run when the compiler returned 0 and the executable exists.
\<close>

theorem stage_order_and_gates:
  assumes "check_call os (compile_argv c_file) (print (''Testing '' @ c_file @ ''...'') st) = (r1, st1)"
      and "check_call os (assemble_argv c_file) st1 = (r2, st2)"
      and "check_call os (link_argv c_file) st2 = (r3, st3)"
      and "run_cmd os' (compile_cmd test_path) (Some e)
             (print (''--- Running '' @ basename test_path @ '' ---'') st') = (res, st1')"
  shows "spawned (snd (run_test os c_file st)) =
           spawned st @
             take (if r1 = Inl FileNotFoundError \<or> r1 = Inl OSError \<or>
                      \<not> path_exists os (asm_file c_file) (world st1) then 1
                   else if r2 \<noteq> Inr () then 2
                   else if r3 \<noteq> Inr () then 3
                   else 4) (asm_plan c_file) \<and>
         spawned (snd (coff_test os' e test_path expected_code results st')) =
           spawned st' @
             take (if returncode res \<noteq> 0 \<or>
                      \<not> path_exists os' (exe_path test_path) (world st1') then 1
                   else 2) (coff_plan os' test_path)"
  using spawned_run_test [OF assms(1,2,3)] spawned_coff_test [OF assms(4)] by simp

text \<open>
  The theorem at work: an assembler that returns 1 ends the lenient test after two
  stages, and a compiler that returns 0 without leaving an executable ends the strict test
  after one.
\<close>

theorem stage_order_and_gates_witness:
  "spawned (snd (run_test
      (sample_os [''tests/01_return.asm'']
         (\<lambda>argv. if hd argv = ASSEMBLER then Completed (exited 1) else Completed (exited 0))
         (\<lambda>cmd. exited 0) [])
      ''tests/01_return.c'' start)) =
     [Argv (compile_argv ''tests/01_return.c''), Argv (assemble_argv ''tests/01_return.c'')] \<and>
   spawned (snd (coff_test
      (sample_os [] (\<lambda>argv. NotFound) (\<lambda>cmd. exited 0) [])
      Map.empty ''tests/01_return.c'' 42 [] start)) =
     [Shell (compile_cmd ''tests/01_return.c'')]"
  using stage_order_and_gates
    [of "sample_os [''tests/01_return.asm'']
           (\<lambda>argv. if hd argv = ASSEMBLER then Completed (exited 1) else Completed (exited 0))
           (\<lambda>cmd. exited 0) []"
        "''tests/01_return.c''" start
        "Inr ()" "start\<lparr>printed := [''Testing tests/01_return.c...''],
                        spawned := [Argv (compile_argv ''tests/01_return.c'')]\<rparr>"
        "Inl (CalledProcessError 1)"
        "start\<lparr>printed := [''Testing tests/01_return.c...''],
               spawned := [Argv (compile_argv ''tests/01_return.c''),
                           Argv (assemble_argv ''tests/01_return.c'')]\<rparr>"
        "Inr ()"
        "start\<lparr>printed := [''Testing tests/01_return.c...''],
               spawned := [Argv (compile_argv ''tests/01_return.c''),
                           Argv (assemble_argv ''tests/01_return.c''),
                           Argv (link_argv ''tests/01_return.c'')]\<rparr>"
        "sample_os [] (\<lambda>argv. NotFound) (\<lambda>cmd. exited 0) []"
        "''tests/01_return.c''" Map.empty start
        "exited 0"
        "start\<lparr>printed := [''--- Running 01_return.c ---'', ''[CMD] '' @ compile_cmd ''tests/01_return.c''],
               spawned := [Shell (compile_cmd ''tests/01_return.c'')]\<rparr>"
        42 "[]"]
  by (simp add: sample_run)

text \<open>
  C6 as stated fails in the lenient harness: there the assembler and the linker are
  judged by their return codes only. In this world both return 0 and leave neither an
  object file nor an executable; the linker is started all the same, and so is the
  missing executable.
\<close>

theorem stage_artifact_counterexample:
  "\<not> path_exists os_no_exe (obj_file ''tests/01_return.c'') () \<and>
   \<not> path_exists os_no_exe (exe_file ''tests/01_return.c'') () \<and>
   spawned (snd (run_test os_no_exe ''tests/01_return.c'' start)) = asm_plan ''tests/01_return.c''"
  by (simp add: os_no_exe_def sample_run)

section \<open>What decides the compile stage\<close>

lemma run_test_after_compile:
  assumes "check_call os (compile_argv c_file) (print (''Testing '' @ c_file @ ''...'') st) = (r1, st1)"
      and "r1 = Inr () \<or> r1 = Inl (CalledProcessError n)"
  shows "run_test os c_file st = run_test_check_asm os c_file st1"
  using assms by (auto simp add: run_test_def)

lemma spawned_run_test_assemble_prefix:
  "\<exists>rest. spawned (snd (run_test_assemble os c_file st)) =
     spawned st @ Argv (assemble_argv c_file) # rest"
proof -
  obtain r2 st2 where a: "check_call os (assemble_argv c_file) st = (r2, st2)"
    by (cases "check_call os (assemble_argv c_file) st")
  obtain r3 st3 where l: "check_call os (link_argv c_file) st2 = (r3, st3)"
    by (cases "check_call os (link_argv c_file) st2")
  show ?thesis
    unfolding spawned_run_test_assemble [OF a l] by blast
qed

text \<open>
  C3, as the code has it. In the lenient harness the compile stage is judged by its
  artifact: when the compiler returns a non-zero status \<open>n\<close> and the assembly file exists
  afterwards, \<^verbatim>\<open>run_test\<close> goes on with the assemble stage (the assembler is the next
  process started), and when the assembly file does not exist the test fails whatever the
  compiler returned. In the strict harness the compile stage is judged by the compiler's
  return code: a non-zero one makes the test \<^verbatim>\<open>FAIL (Comp)\<close> with nothing else started,
  whatever files exist.
\<close>

theorem compile_stage_criterion:
  assumes "check_call os (compile_argv c_file) (print (''Testing '' @ c_file @ ''...'') st) = (r1, st1)"
      and "r1 = Inr () \<or> r1 = Inl (CalledProcessError n)"
      and "run_cmd os' (compile_cmd test_path) (Some e)
             (print (''--- Running '' @ basename test_path @ '' ---'') st') = (res, st1')"
  shows "(path_exists os (asm_file c_file) (world st1) \<longrightarrow>
            run_test os c_file st = run_test_assemble os c_file st1 \<and>
            (\<exists>rest. spawned (snd (run_test os c_file st)) =
               spawned st @ Argv (compile_argv c_file) # Argv (assemble_argv c_file) # rest)) \<and>
         (\<not> path_exists os (asm_file c_file) (world st1) \<longrightarrow>
            fst (run_test os c_file st) = Inr False \<and>
            spawned (snd (run_test os c_file st)) = spawned st @ [Argv (compile_argv c_file)]) \<and>
         (returncode res \<noteq> 0 \<longrightarrow>
            fst (coff_test os' e test_path expected_code results st') =
              results @ [(basename test_path, ''FAIL (Comp)'')] \<and>
            spawned (snd (coff_test os' e test_path expected_code results st')) =
              spawned st' @ [Shell (compile_cmd test_path)])"
proof -
  have s1: "spawned st1 = spawned st @ [Argv (compile_argv c_file)]"
    using check_callD(1) [OF assms(1)] by simp
  have rt: "run_test os c_file st = run_test_check_asm os c_file st1"
    using run_test_after_compile [OF assms(1,2)] .
  have present: "run_test os c_file st = run_test_assemble os c_file st1 \<and>
      (\<exists>rest. spawned (snd (run_test os c_file st)) =
         spawned st @ Argv (compile_argv c_file) # Argv (assemble_argv c_file) # rest)"
    if "path_exists os (asm_file c_file) (world st1)"
  proof -
    from that rt have eq: "run_test os c_file st = run_test_assemble os c_file st1"
      by (simp add: run_test_check_asm_def)
    from spawned_run_test_assemble_prefix [of os c_file st1] s1 eq show ?thesis by auto
  qed
  have missing: "fst (run_test os c_file st) = Inr False \<and>
      spawned (snd (run_test os c_file st)) = spawned st @ [Argv (compile_argv c_file)]"
    if "\<not> path_exists os (asm_file c_file) (world st1)"
    using that rt s1 by (simp add: run_test_check_asm_def)
  have s1': "spawned st1' = spawned st' @ [Shell (compile_cmd test_path)]"
    using run_cmdD(1) [OF assms(3)] by simp
  have strict: "fst (coff_test os' e test_path expected_code results st') =
        results @ [(basename test_path, ''FAIL (Comp)'')] \<and>
      spawned (snd (coff_test os' e test_path expected_code results st')) =
        spawned st' @ [Shell (compile_cmd test_path)]"
    if "returncode res \<noteq> 0"
    using that assms(3) s1' by (simp add: coff_test_def Let_def)
  from present missing strict show ?thesis by blast
qed

text \<open>
  The theorem at work: a compiler that returns 1 and leaves the assembly file (the lenient
  test goes on to the assembler, which here is not installed), and a compiler that returns
  1 in the strict harness.
\<close>

theorem compile_stage_criterion_witness:
  "path_exists (sample_os [''tests/01_return.asm'']
       (\<lambda>argv. if hd argv = COMPILER then Completed (exited 1) else NotFound)
       (\<lambda>cmd. exited 1) []) (asm_file ''tests/01_return.c'') () \<and>
   spawned (snd (run_test (sample_os [''tests/01_return.asm'']
       (\<lambda>argv. if hd argv = COMPILER then Completed (exited 1) else NotFound)
       (\<lambda>cmd. exited 1) []) ''tests/01_return.c'' start)) =
     [Argv (compile_argv ''tests/01_return.c''), Argv (assemble_argv ''tests/01_return.c'')] \<and>
   fst (coff_test (sample_os [''tests/01_return.asm'']
       (\<lambda>argv. if hd argv = COMPILER then Completed (exited 1) else NotFound)
       (\<lambda>cmd. exited 1) []) Map.empty ''tests/01_return.c'' 42 [] start) =
     [(''01_return.c'', ''FAIL (Comp)'')]"
  using compile_stage_criterion
    [of "sample_os [''tests/01_return.asm'']
           (\<lambda>argv. if hd argv = COMPILER then Completed (exited 1) else NotFound)
           (\<lambda>cmd. exited 1) []"
        "''tests/01_return.c''" start
        "Inl (CalledProcessError 1)"
        "start\<lparr>printed := [''Testing tests/01_return.c...''],
               spawned := [Argv (compile_argv ''tests/01_return.c'')]\<rparr>"
        1
        "sample_os [''tests/01_return.asm'']
           (\<lambda>argv. if hd argv = COMPILER then Completed (exited 1) else NotFound)
           (\<lambda>cmd. exited 1) []"
        "''tests/01_return.c''" Map.empty start
        "exited 1"
        "start\<lparr>printed := [''--- Running 01_return.c ---'', ''[CMD] '' @ compile_cmd ''tests/01_return.c''],
               spawned := [Shell (compile_cmd ''tests/01_return.c'')]\<rparr>"
        42 "[]"]
  by (simp add: sample_run)

text \<open>
  C3 as stated fails in the strict harness: the compiler returns 1, the assembly file and
  the executable are both on disk, and the test is \<^verbatim>\<open>FAIL (Comp)\<close>; the executable is
  never run.
\<close>

theorem compile_status_counterexample:
  "returncode (fst (shell os_compile_nonzero (compile_cmd ''tests/01_return.c'') Map.empty ())) = 1 \<and>
   path_exists os_compile_nonzero (asm_file ''tests/01_return.c'') () \<and>
   path_exists os_compile_nonzero (exe_path ''tests/01_return.c'') () \<and>
   fst (coff_test os_compile_nonzero Map.empty ''tests/01_return.c'' 42 [] start) =
     [(''01_return.c'', ''FAIL (Comp)'')] \<and>
   spawned (snd (coff_test os_compile_nonzero Map.empty ''tests/01_return.c'' 42 [] start)) =
     [Shell (compile_cmd ''tests/01_return.c'')]"
  by (simp add: os_compile_nonzero_def sample_run)

section \<open>A tool that cannot be started\<close>

lemma run_test_assemble_skip:
  assumes "fst (popen os (assemble_argv c_file) (environ st) (world st)) = NotFound"
  shows "fst (run_test_assemble os c_file st) = Inr True"
    and "printed (snd (run_test_assemble os c_file st)) =
           printed st @ [''SKIPPED: ml not found in PATH'']"
    and "spawned (snd (run_test_assemble os c_file st)) = spawned st @ [Argv (assemble_argv c_file)]"
proof -
  obtain r2 st2 where a: "check_call os (assemble_argv c_file) st = (r2, st2)"
    by (cases "check_call os (assemble_argv c_file) st")
  have "r2 = Inl FileNotFoundError"
    using check_callD(5) [OF a] assms by (simp add: check_call_result)
  with a check_callD(1,3) [OF a]
  show "fst (run_test_assemble os c_file st) = Inr True"
    and "printed (snd (run_test_assemble os c_file st)) =
           printed st @ [''SKIPPED: ml not found in PATH'']"
    and "spawned (snd (run_test_assemble os c_file st)) = spawned st @ [Argv (assemble_argv c_file)]"
    by (simp_all add: run_test_assemble_def)
qed

lemma run_test_execute_not_started:
  assumes "fst (popen os (execute_argv c_file) (environ st) (world st)) \<in> {NotFound, StartError}"
  shows "fst (run_test_execute os c_file st) = Inr False"
proof -
  obtain r st1 where x: "subprocess_run os (execute_argv c_file) st = (r, st1)"
    by (cases "subprocess_run os (execute_argv c_file) st")
  have "r = Inl FileNotFoundError \<or> r = Inl OSError"
    using subprocess_run_result [of os "execute_argv c_file" st] x assms by auto
  with x show ?thesis by (auto simp add: run_test_execute_def)
qed

lemma run_test_all_stages:
  assumes "check_call os (compile_argv c_file) (print (''Testing '' @ c_file @ ''...'') st) = (r1, st1)"
      and "r1 = Inr () \<or> r1 = Inl (CalledProcessError n)"
      and "path_exists os (asm_file c_file) (world st1)"
      and "check_call os (assemble_argv c_file) st1 = (Inr (), st2)"
      and "check_call os (link_argv c_file) st2 = (Inr (), st3)"
  shows "run_test os c_file st = run_test_execute os c_file st3"
  using run_test_after_compile [OF assms(1,2)] assms(3,4,5)
  by (simp add: run_test_check_asm_def run_test_assemble_def run_test_link_def)

text \<open>
  C4, as the code has it by design. At the assemble stage: when the compile stage left
  the assembly file and the assembler is not found when started, \<^verbatim>\<open>run_test\<close> prints
  the \<^verbatim>\<open>SKIPPED\<close> line and returns \<^verbatim>\<open>True\<close> without raising, and nothing is started
  after the assembler; the test is skipped, not failed. At the execute stage: when the
  compile, assemble and link stages completed and the executable cannot be started (not
  found, or any other error of the operating system), \<^verbatim>\<open>run_test\<close> returns \<^verbatim>\<open>False\<close>
  without raising; the test fails. Nothing is said here of a compiler or a linker that
  cannot be started.
\<close>

theorem missing_tool_outcomes:
  assumes "check_call os (compile_argv c_file) (print (''Testing '' @ c_file @ ''...'') st) = (r1, st1)"
      and "r1 = Inr () \<or> r1 = Inl (CalledProcessError n)"
      and "path_exists os (asm_file c_file) (world st1)"
      and "fst (popen os (assemble_argv c_file) (environ st1) (world st1)) = NotFound"
      and "check_call os' (compile_argv c_file') (print (''Testing '' @ c_file' @ ''...'') st') = (r1', st1')"
      and "r1' = Inr () \<or> r1' = Inl (CalledProcessError n')"
      and "path_exists os' (asm_file c_file') (world st1')"
      and "check_call os' (assemble_argv c_file') st1' = (Inr (), st2')"
      and "check_call os' (link_argv c_file') st2' = (Inr (), st3')"
      and "fst (popen os' (execute_argv c_file') (environ st3') (world st3')) \<in> {NotFound, StartError}"
  shows "fst (run_test os c_file st) = Inr True \<and>
         printed (snd (run_test os c_file st)) =
           printed st @ [''Testing '' @ c_file @ ''...'', ''SKIPPED: ml not found in PATH''] \<and>
         spawned (snd (run_test os c_file st)) =
           spawned st @ [Argv (compile_argv c_file), Argv (assemble_argv c_file)] \<and>
         fst (run_test os' c_file' st') = Inr False \<and>
         fst (run_test_execute os' c_file' st3') = Inr False"
proof -
  have rt: "run_test os c_file st = run_test_assemble os c_file st1"
    using run_test_after_compile [OF assms(1,2)] assms(3) by (simp add: run_test_check_asm_def)
  have "spawned st1 = spawned st @ [Argv (compile_argv c_file)]"
    and "printed st1 = printed st @ [''Testing '' @ c_file @ ''...'']"
    using check_callD(1,3) [OF assms(1)] by simp_all
  with rt run_test_assemble_skip [OF assms(4)]
  have skip: "fst (run_test os c_file st) = Inr True \<and>
         printed (snd (run_test os c_file st)) =
           printed st @ [''Testing '' @ c_file @ ''...'', ''SKIPPED: ml not found in PATH''] \<and>
         spawned (snd (run_test os c_file st)) =
           spawned st @ [Argv (compile_argv c_file), Argv (assemble_argv c_file)]"
    by simp
  have x: "fst (run_test_execute os' c_file' st3') = Inr False"
    using run_test_execute_not_started [OF assms(10)] .
  have "run_test os' c_file' st' = run_test_execute os' c_file' st3'"
    using run_test_all_stages [OF assms(5,6,7,8,9)] .
  with x skip show ?thesis by simp
qed

text \<open>
  The theorem at work. In one world the compiler leaves the assembly file and no other
  program is installed. In the other the compiler, the assembler and the linker return 0
  and the operating system refuses to start the executable.
\<close>

theorem missing_tool_outcomes_witness:
  "fst (run_test (sample_os [''tests/01_return.asm'']
       (\<lambda>argv. if hd argv = COMPILER then Completed (exited 0) else NotFound)
       (\<lambda>cmd. exited 0) []) ''tests/01_return.c'' start) = Inr True \<and>
   printed (snd (run_test (sample_os [''tests/01_return.asm'']
       (\<lambda>argv. if hd argv = COMPILER then Completed (exited 0) else NotFound)
       (\<lambda>cmd. exited 0) []) ''tests/01_return.c'' start)) =
     [''Testing tests/01_return.c...'', ''SKIPPED: ml not found in PATH''] \<and>
   fst (run_test (sample_os [''tests/07_function.asm'']
       (\<lambda>argv. if hd argv \<in> {COMPILER, ASSEMBLER, LINKER} then Completed (exited 0)
                else StartError)
       (\<lambda>cmd. exited 0) []) ''tests/07_function.c'' start) = Inr False"
proof -
  let ?os = "sample_os [''tests/01_return.asm'']
       (\<lambda>argv. if hd argv = COMPILER then Completed (exited 0) else NotFound)
       (\<lambda>cmd. exited 0) []"
  let ?c = "''tests/01_return.c''"
  let ?os' = "sample_os [''tests/07_function.asm'']
       (\<lambda>argv. if hd argv \<in> {COMPILER, ASSEMBLER, LINKER} then Completed (exited 0)
                else StartError)
       (\<lambda>cmd. exited 0) []"
  let ?c' = "''tests/07_function.c''"
  obtain r1 st1 where a1: "check_call ?os (compile_argv ?c) (print (''Testing '' @ ?c @ ''...'') start) = (r1, st1)"
    by (cases "check_call ?os (compile_argv ?c) (print (''Testing '' @ ?c @ ''...'') start)")
  have a2: "r1 = Inr () \<or> r1 = Inl (CalledProcessError 0)"
    using check_callD(5) [OF a1]
    by (simp add: check_call_result sample_os_def compile_argv_def exited_def)
  have a3: "path_exists ?os (asm_file ?c) (world st1)"
    by (simp add: sample_os_def asm_file_def splitext_root_def basename_def is_sep_def bsl_def
          Let_def)
  have a4: "fst (popen ?os (assemble_argv ?c) (environ st1) (world st1)) = NotFound"
    by (simp add: sample_os_def assemble_argv_def ASSEMBLER_def COMPILER_def)
  obtain r1' st1' where b1: "check_call ?os' (compile_argv ?c') (print (''Testing '' @ ?c' @ ''...'') start) = (r1', st1')"
    by (cases "check_call ?os' (compile_argv ?c') (print (''Testing '' @ ?c' @ ''...'') start)")
  have b2: "r1' = Inr () \<or> r1' = Inl (CalledProcessError 0)"
    using check_callD(5) [OF b1]
    by (simp add: check_call_result sample_os_def compile_argv_def exited_def)
  have b3: "path_exists ?os' (asm_file ?c') (world st1')"
    by (simp add: sample_os_def asm_file_def splitext_root_def basename_def is_sep_def bsl_def
          Let_def)
  obtain r2' st2' where b4': "check_call ?os' (assemble_argv ?c') st1' = (r2', st2')"
    by (cases "check_call ?os' (assemble_argv ?c') st1'")
  have "r2' = Inr ()"
    using check_callD(5) [OF b4']
    by (simp add: check_call_result sample_os_def assemble_argv_def exited_def)
  with b4' have b4: "check_call ?os' (assemble_argv ?c') st1' = (Inr (), st2')" by simp
  obtain r3' st3' where b5': "check_call ?os' (link_argv ?c') st2' = (r3', st3')"
    by (cases "check_call ?os' (link_argv ?c') st2'")
  have "r3' = Inr ()"
    using check_callD(5) [OF b5']
    by (simp add: check_call_result sample_os_def link_argv_def exited_def)
  with b5' have b5: "check_call ?os' (link_argv ?c') st2' = (Inr (), st3')" by simp
  have b6: "fst (popen ?os' (execute_argv ?c') (environ st3') (world st3')) \<in> {NotFound, StartError}"
    by (simp add: sample_os_def execute_argv_def exe_file_def splitext_root_def basename_def
          is_sep_def bsl_def Let_def COMPILER_def ASSEMBLER_def LINKER_def)
  have p: "printed start = []" by (simp add: start_def)
  from missing_tool_outcomes [OF a1 a2 a3 a4 b1 b2 b3 b4 b5 b6] show ?thesis
    unfolding p by simp
qed

text \<open>
  C4 as stated fails at the execute stage: here the executable cannot be found when it
  is started, and the test fails; it is not skipped.
\<close>

theorem missing_executable_counterexample:
  "fst (popen os_no_exe (execute_argv ''tests/01_return.c'') Map.empty ()) = NotFound \<and>
   fst (run_test os_no_exe ''tests/01_return.c'' start) = Inr False \<and>
   printed (snd (run_test os_no_exe ''tests/01_return.c'' start)) =
     [''Testing tests/01_return.c...'',
      ''FAILED: Execution of tests/01_return.exe: cannot start'']"
  by (simp add: os_no_exe_def sample_run)

section \<open>A test without an expected exit code\<close>

lemma no_rule_no_check:
  assumes "\<forall>r \<in> set rule_names. \<not> str_in r c_file"
  shows "failed_expectation c_file ret_code = None"
  using assms by (simp add: rule_names_def failed_expectation_def)

lemma whitelisted_without_rule:
  assumes "b \<in> set test_whitelist" and "\<forall>r \<in> set rule_names. \<not> str_in r b"
  shows "b = ''11_nested_struct.c''"
proof -
  have "str_in ''01_return'' ''01_return.c''" "str_in ''07_function'' ''07_function.c''"
    "str_in ''17_for'' ''17_for.c''" "str_in ''18_typedef'' ''18_typedef.c''"
    "str_in ''19_array'' ''19_array.c''" "str_in ''20_switch'' ''20_switch.c''"
    "str_in ''21_enum'' ''21_enum.c''" "str_in ''22_union'' ''22_union.c''"
    "str_in ''23_pointer_math'' ''23_pointer_math.c''"
    by simp_all
  moreover from assms(1) have "b = ''01_return.c'' \<or> b = ''07_function.c'' \<or>
     b = ''11_nested_struct.c'' \<or> b = ''17_for.c'' \<or> b = ''18_typedef.c'' \<or>
     b = ''19_array.c'' \<or> b = ''20_switch.c'' \<or> b = ''21_enum.c'' \<or> b = ''22_union.c'' \<or>
     b = ''23_pointer_math.c''"
    unfolding test_whitelist_def by (simp only: set_simps insert_iff empty_iff simp_thms)
  moreover from assms(2) have "\<not> str_in ''01_return'' b" "\<not> str_in ''07_function'' b"
    "\<not> str_in ''17_for'' b" "\<not> str_in ''18_typedef'' b" "\<not> str_in ''19_array'' b"
    "\<not> str_in ''20_switch'' b" "\<not> str_in ''21_enum'' b" "\<not> str_in ''22_union'' b"
    "\<not> str_in ''23_pointer_math'' b"
    unfolding rule_names_def by (simp_all only: set_simps ball_simps simp_thms)
  ultimately show ?thesis by blast
qed

lemma nested_struct_unchecked:
  "failed_expectation ''tests/11_nested_struct.c'' ret_code = None"
  "failed_expectation (''tests'' @ [bsl] @ ''11_nested_struct.c'') ret_code = None"
  by (simp_all add: failed_expectation_def bsl_def)

text \<open>
  C9. In the lenient harness, for a file found as \<^verbatim>\<open>tests/b\<close> (or with a backslash, as
  \<^verbatim>\<open>glob\<close> returns it on Windows) whose base name \<open>b\<close> is in the whitelist and
  contains none of the names the exit-code checks are keyed on, a run in which all four
  stages complete returns \<^verbatim>\<open>True\<close> and prints \<^verbatim>\<open>PASSED\<close>, whatever exit code the
  executable returned: no check is made.
\<close>

theorem unchecked_test_passes:
  assumes "b \<in> set test_whitelist"
      and "\<forall>r \<in> set rule_names. \<not> str_in r b"
      and "c_file = ''tests/'' @ b \<or> c_file = ''tests'' @ [bsl] @ b"
      and "check_call os (compile_argv c_file) (print (''Testing '' @ c_file @ ''...'') st) = (r1, st1)"
      and "r1 = Inr () \<or> r1 = Inl (CalledProcessError n)"
      and "path_exists os (asm_file c_file) (world st1)"
      and "check_call os (assemble_argv c_file) st1 = (Inr (), st2)"
      and "check_call os (link_argv c_file) st2 = (Inr (), st3)"
      and "subprocess_run os (execute_argv c_file) st3 = (Inr result, st4)"
  shows "run_test os c_file st =
           (Inr True, print ''PASSED'' (print (''  Exit Code: '' @ str_int (returncode result)) st4))"
proof -
  have b: "b = ''11_nested_struct.c''"
    using whitelisted_without_rule [OF assms(1,2)] .
  have "c_file = ''tests/11_nested_struct.c'' \<or> c_file = ''tests'' @ [bsl] @ ''11_nested_struct.c''"
    using assms(3) unfolding b by simp
  then have "failed_expectation c_file (returncode result) = None"
    using nested_struct_unchecked [of "returncode result"] by metis
  with assms(9) have "run_test_execute os c_file st3 =
      (Inr True, print ''PASSED'' (print (''  Exit Code: '' @ str_int (returncode result)) st4))"
    by (simp add: run_test_execute_def Let_def)
  with run_test_all_stages [OF assms(4,5,6,7,8)] show ?thesis by simp
qed

text \<open>
  The theorem at work: \<^verbatim>\<open>tests/11_nested_struct.c\<close>, every tool returns 0 and the
  executable returns 77.
\<close>

theorem unchecked_test_passes_witness:
  "''11_nested_struct.c'' \<in> set test_whitelist \<and>
   fst (run_test (sample_os [''tests/11_nested_struct.asm'']
       (\<lambda>argv. if hd argv \<in> {COMPILER, ASSEMBLER, LINKER} then Completed (exited 0)
                else Completed (exited 77))
       (\<lambda>cmd. exited 0) []) ''tests/11_nested_struct.c'' start) = Inr True \<and>
   printed (snd (run_test (sample_os [''tests/11_nested_struct.asm'']
       (\<lambda>argv. if hd argv \<in> {COMPILER, ASSEMBLER, LINKER} then Completed (exited 0)
                else Completed (exited 77))
       (\<lambda>cmd. exited 0) []) ''tests/11_nested_struct.c'' start)) =
     [''Testing tests/11_nested_struct.c...'', ''  Exit Code: 77'', ''PASSED'']"
  using unchecked_test_passes
    [where b = "''11_nested_struct.c''" and c_file = "''tests/11_nested_struct.c''"
       and os = "sample_os [''tests/11_nested_struct.asm'']
           (\<lambda>argv. if hd argv \<in> {COMPILER, ASSEMBLER, LINKER} then Completed (exited 0)
                    else Completed (exited 77))
           (\<lambda>cmd. exited 0) []"
       and st = start and ?r1.0 = "Inr ()" and n = 0
       and ?st1.0 = "start\<lparr>printed := [''Testing tests/11_nested_struct.c...''],
               spawned := [Argv (compile_argv ''tests/11_nested_struct.c'')]\<rparr>"
       and ?st2.0 = "start\<lparr>printed := [''Testing tests/11_nested_struct.c...''],
               spawned := [Argv (compile_argv ''tests/11_nested_struct.c''),
                           Argv (assemble_argv ''tests/11_nested_struct.c'')]\<rparr>"
       and ?st3.0 = "start\<lparr>printed := [''Testing tests/11_nested_struct.c...''],
               spawned := [Argv (compile_argv ''tests/11_nested_struct.c''),
                           Argv (assemble_argv ''tests/11_nested_struct.c''),
                           Argv (link_argv ''tests/11_nested_struct.c'')]\<rparr>"
       and result = "exited 77"
       and ?st4.0 = "start\<lparr>printed := [''Testing tests/11_nested_struct.c...''],
               spawned := asm_plan ''tests/11_nested_struct.c''\<rparr>"]
  by (simp add: sample_run test_whitelist_def rule_names_def str_int_def str_nat.simps
        digit_char_def)

section \<open>The environment after the bootstrap\<close>

lemma spec_merge_Nil: "spec_merge enc e [] = e"
  by (simp add: spec_merge_def spec_pairs_def)

lemma spec_pairs_Cons:
  "spec_pairs (line # rest) =
     (if CHR ''='' \<in> set line
      then (takeWhile (\<lambda>c. c \<noteq> CHR ''='') line, tl (dropWhile (\<lambda>c. c \<noteq> CHR ''='') line)) #
           spec_pairs rest
      else spec_pairs rest)"
  by (simp add: spec_pairs_def)

lemma spec_merge_Cons:
  "spec_merge enc e (line # rest) =
     (if CHR ''='' \<in> set line
      then spec_merge enc
             (e(enc (takeWhile (\<lambda>c. c \<noteq> CHR ''='') line) \<mapsto>
                  tl (dropWhile (\<lambda>c. c \<noteq> CHR ''='') line)))
             rest
      else spec_merge enc e rest)"
proof -
  have upd: "e ++ ([k \<mapsto> v] ++ m) = e(k \<mapsto> v) ++ m" for m :: env and k v
  proof -
    have "e ++ ([k \<mapsto> v] ++ m) = (e ++ [k \<mapsto> v]) ++ m"
      by (simp only: map_add_assoc)
    then show ?thesis by simp
  qed
  show ?thesis
    by (simp add: spec_merge_def spec_pairs_def upd)
qed

lemma merge_lines_Cons:
  "merge_lines os (line # rest) e =
     (if CHR ''='' \<in> set line
      then (case environ_set os (takeWhile (\<lambda>c. c \<noteq> CHR ''='') line)
                   (tl (dropWhile (\<lambda>c. c \<noteq> CHR ''='') line)) e of
              Inl ex \<Rightarrow> (Inl ex, e)
            | Inr e' \<Rightarrow> merge_lines os rest e')
      else merge_lines os rest e)"
proof (cases "CHR ''='' \<in> set line")
  case True
  then have "split1 CHR ''='' line =
      [takeWhile (\<lambda>c. c \<noteq> CHR ''='') line, tl (dropWhile (\<lambda>c. c \<noteq> CHR ''='') line)]"
    by (simp add: split1_def)
  with True show ?thesis by (simp only: merge_lines.simps if_True list.case)
next
  case False
  then show ?thesis by (simp only: merge_lines.simps if_False)
qed

lemma merge_lines_spec:
  assumes "\<forall>(k, v) \<in> set (spec_pairs lines). putenv os (encodekey os k) v = None"
  shows "merge_lines os lines e = (Inr (), spec_merge (encodekey os) e lines)"
  using assms
proof (induction lines arbitrary: e)
  case Nil
  show ?case by (simp add: spec_merge_Nil)
next
  case (Cons line rest)
  show ?case
  proof (cases "CHR ''='' \<in> set line")
    case True
    let ?k = "takeWhile (\<lambda>c. c \<noteq> CHR ''='') line"
    let ?v = "tl (dropWhile (\<lambda>c. c \<noteq> CHR ''='') line)"
    from Cons.prems True have ok: "putenv os (encodekey os ?k) ?v = None"
      and rest: "\<forall>(k, v) \<in> set (spec_pairs rest). putenv os (encodekey os k) v = None"
      by (simp_all add: spec_pairs_Cons)
    from ok have "environ_set os ?k ?v e = Inr (e(encodekey os ?k \<mapsto> ?v))"
      by (simp add: environ_set_def)
    with True Cons.IH [OF rest] show ?thesis
      by (simp only: merge_lines_Cons spec_merge_Cons if_True sum.case)
  next
    case False
    with Cons.prems have rest:
      "\<forall>(k, v) \<in> set (spec_pairs rest). putenv os (encodekey os k) v = None"
      by (simp add: spec_pairs_Cons)
    with False Cons.IH [OF rest] show ?thesis
      by (simp only: merge_lines_Cons spec_merge_Cons if_False)
  qed
qed

lemma check_outputD:
  assumes "check_output os cmd st = (r, st1)"
  shows "environ st1 = environ st" "spawned st1 = spawned st @ [Shell cmd]"
    "printed st1 = printed st"
  using assms
  by (auto simp add: check_output_def shell_run_def Let_def split: prod.splits if_splits)

text \<open>
  C8, as the code has it. When the bootstrap command exists, its run succeeds with output
  \<open>output\<close>, and the platform accepts each pair of the output as an environment variable,
  the environment afterwards is the environment before with the pairs of the output's
  lines merged in as the specification words it (\<open>spec_merge\<close>: each line with an \<open>=\<close>
  split at the first \<open>=\<close>, a later pair overwriting an earlier one and the prior value,
  lines without \<open>=\<close> ignored), each under its name as \<^verbatim>\<open>os.environ\<close> keeps it; nothing
  is raised. When the bootstrap command does not exist, the whole state, the environment
  included, is left as it was.
\<close>

theorem bootstrap_merges_environment:
  "(path_exists os vcvars_path (world st) \<and>
    check_output os ([dquote] @ vcvars_path @ [dquote] @ '' && set'') st = (Inr output, st1) \<and>
    (\<forall>(k, v) \<in> set (spec_pairs (splitlines output)). putenv os (encodekey os k) v = None) \<longrightarrow>
      bootstrap os st =
        (Inr (),
         st1\<lparr>environ := spec_merge (encodekey os) (environ st) (splitlines output)\<rparr>)) \<and>
   (\<not> path_exists os vcvars_path (world st) \<longrightarrow> bootstrap os st = (Inr (), st))"
proof -
  have "bootstrap os st =
      (Inr (), st1\<lparr>environ := spec_merge (encodekey os) (environ st) (splitlines output)\<rparr>)"
    if e: "path_exists os vcvars_path (world st)"
      and c: "check_output os ([dquote] @ vcvars_path @ [dquote] @ '' && set'') st = (Inr output, st1)"
      and p: "\<forall>(k, v) \<in> set (spec_pairs (splitlines output)). putenv os (encodekey os k) v = None"
  proof -
    have "environ st1 = environ st" using check_outputD(1) [OF c] .
    with e c show ?thesis
      by (simp add: bootstrap_def merge_lines_spec [OF p])
  qed
  moreover have "bootstrap os st = (Inr (), st)" if "\<not> path_exists os vcvars_path (world st)"
    using that by (simp add: bootstrap_def)
  ultimately show ?thesis by blast
qed

text \<open>
  The theorem at work: four lines of output, one of them without \<open>=\<close>, one with two,
  and the path set twice, under two spellings of its name; and a world without the
  bootstrap command.
\<close>

theorem bootstrap_merges_environment_witness:
  "environ (snd (bootstrap
      (sample_os [vcvars_path] (\<lambda>argv. NotFound)
         (\<lambda>cmd. \<lparr>returncode = 0,
                  stdout = ''Path=C:x'' @ [newline] @ ''noise'' @ [newline] @ ''A=1=2'' @ [newline] @
                           ''PATH=D'' @ [newline],
                  stderr = []\<rparr>) [])
      (start\<lparr>environ := [''PATH'' \<mapsto> ''old'', ''HOME'' \<mapsto> ''h'']\<rparr>))) =
     [''PATH'' \<mapsto> ''D'', ''HOME'' \<mapsto> ''h'', ''A'' \<mapsto> ''1=2''] \<and>
   bootstrap os_no_compiler start = (Inr (), start)"
proof -
  let ?out = "''Path=C:x'' @ [newline] @ ''noise'' @ [newline] @ ''A=1=2'' @ [newline] @
              ''PATH=D'' @ [newline]"
  let ?os = "sample_os [vcvars_path] (\<lambda>argv. NotFound)
         (\<lambda>cmd. \<lparr>returncode = 0, stdout = ?out, stderr = []\<rparr>) []"
  let ?st = "start\<lparr>environ := [''PATH'' \<mapsto> ''old'', ''HOME'' \<mapsto> ''h'']\<rparr>"
  let ?st1 = "?st\<lparr>spawned := [Shell ([dquote] @ vcvars_path @ [dquote] @ '' && set'')]\<rparr>"
  have lines: "splitlines ?out = [''Path=C:x'', ''noise'', ''A=1=2'', ''PATH=D'']"
    by (simp add: splitlines_def is_linebreak_def newline_def)
  have pairs: "spec_pairs [''Path=C:x'', ''noise'', ''A=1=2'', ''PATH=D''] =
      [(''Path'', ''C:x''), (''A'', ''1=2''), (''PATH'', ''D'')]"
    by (simp add: spec_pairs_def)
  have ex: "path_exists ?os vcvars_path (world ?st)"
    by (simp add: sample_os_def)
  have run: "check_output ?os ([dquote] @ vcvars_path @ [dquote] @ '' && set'') ?st = (Inr ?out, ?st1)"
    by (simp add: check_output_def shell_run_def sample_os_def start_def Let_def)
  have ok: "\<forall>(k, v) \<in> set (spec_pairs (splitlines ?out)). putenv ?os (encodekey ?os k) v = None"
    unfolding lines pairs by (simp add: sample_os_def ascii_upper_def)
  have merged: "spec_merge (map ascii_upper) [''PATH'' \<mapsto> ''old'', ''HOME'' \<mapsto> ''h'']
        [''Path=C:x'', ''noise'', ''A=1=2'', ''PATH=D''] =
      [''PATH'' \<mapsto> ''D'', ''HOME'' \<mapsto> ''h'', ''A'' \<mapsto> ''1=2'']"
    unfolding spec_merge_def pairs by (auto simp add: ascii_upper_def map_add_def)
  have enc: "encodekey ?os = map ascii_upper" by (simp add: sample_os_def)
  have env: "environ ?st = [''PATH'' \<mapsto> ''old'', ''HOME'' \<mapsto> ''h'']" by simp
  from bootstrap_merges_environment [of ?os ?st ?out ?st1] ex run ok
  have "bootstrap ?os ?st = (Inr (), ?st1\<lparr>environ := spec_merge (encodekey ?os) (environ ?st) (splitlines ?out)\<rparr>)"
    by blast
  then have "environ (snd (bootstrap ?os ?st)) =
      spec_merge (map ascii_upper) [''PATH'' \<mapsto> ''old'', ''HOME'' \<mapsto> ''h'']
        [''Path=C:x'', ''noise'', ''A=1=2'', ''PATH=D'']"
    unfolding enc env lines by simp
  moreover have "\<not> path_exists os_no_compiler vcvars_path (world start)"
    by (simp add: os_no_compiler_def sample_os_def)
  with bootstrap_merges_environment [of os_no_compiler start]
  have "bootstrap os_no_compiler start = (Inr (), start)" by blast
  ultimately show ?thesis unfolding merged by simp
qed

text \<open>
  C8 as stated fails for a line that begins with \<open>=\<close>: it contains an \<open>=\<close>, its pair
  has the empty key, the assignment to \<^verbatim>\<open>os.environ\<close> raises, and the pair is not in
  the environment.
\<close>

theorem empty_key_counterexample:
  "path_exists os_empty_key vcvars_path () \<and>
   splitlines (stdout (fst (shell os_empty_key ([dquote] @ vcvars_path @ [dquote] @ '' && set'')
                              Map.empty ()))) = [''=x''] \<and>
   split1 CHR ''='' ''=x'' = [[], ''x''] \<and>
   fst (bootstrap os_empty_key start) = Inl ValueError \<and>
   environ (snd (bootstrap os_empty_key start)) = Map.empty"
  by (simp add: os_empty_key_def sample_os_def start_def bootstrap_def check_output_def
        shell_run_def Let_def splitlines_def is_linebreak_def newline_def split1_def
        environ_set_def)

section \<open>The report and the exit status\<close>

lemma report_loop_all_pass:
  "fst (report_loop results all_pass st) =
     (all_pass \<and> list_all (\<lambda>(name, status). status = ''PASS'') results)"
  by (induction results all_pass st rule: report_loop.induct) auto

lemma coff_report_status:
  "fst (coff_report results st) =
     (if list_all (\<lambda>(name, status). status = ''PASS'') results then 0 else 1)"
  by (simp add: coff_report_def Let_def split_beta report_loop_all_pass)




lemma asm_main_status:
  assumes "bootstrap os st = (Inr (), st1)"
      and "path_exists os COMPILER (world st1)"
      and "asm_loop os (glob os ''tests/*.c'' (world st1)) 0 0 st1 = (Inr (passed, total'), st2)"
  shows "fst (asm_main os st) = Inr (if passed < total' then 1 else 0)"
  using assms by (simp add: asm_main_def Let_def)


lemma no_compiler_results:
  "fst (coff_results os_no_compiler tests start) = Inr
     [(''01_return.c'', ''FAIL (Comp)''), (''02_arithmetic.c'', ''FAIL (Comp)''),
      (''03_variables.c'', ''FAIL (Comp)''), (''04_if.c'', ''FAIL (Comp)''),
      (''06_while.c'', ''FAIL (Comp)''), (''07_function.c'', ''FAIL (Comp)''),
      (''12_string.c'', ''FAIL (Comp)''), (''14_params.c'', ''FAIL (Comp)''),
      (''15_nested_calls.c'', ''FAIL (Comp)''), (''19_array.c'', ''FAIL (Comp)''),
      (''20_switch.c'', ''FAIL (Comp)''), (''21_enum.c'', ''FAIL (Comp)''),
      (''22_union.c'', ''FAIL (Comp)''), (''23_pointer_math.c'', ''FAIL (Comp)'')]"
  by (simp add: coff_results_def bootstrap_def os_no_compiler_def tests_def sample_run)


section \<open>A crash status against an expected exit code\<close>

lemma coff_test_mismatch:
  assumes "run_cmd os (compile_cmd test_path) (Some e)
             (print (''--- Running '' @ basename test_path @ '' ---'') st) = (res, st1)"
      and "returncode res = 0"
      and "path_exists os (exe_path test_path) (world st1)"
      and "run_cmd os (normpath os (exe_path test_path)) None st1 = (res2, st2)"
      and "normalize_exit_code (returncode res2) \<noteq> expected_code"
  shows "coff_test os e test_path expected_code results st =
     (results @ [(basename test_path,
                  ''FAIL (Got '' @ str_int (normalize_exit_code (returncode res2)) @ '')'')],
      print_failure (basename test_path) (normalize_exit_code (returncode res2)) expected_code
        res2 st2)"
  using assms by (simp add: coff_test_def Let_def)

lemma access_violation_code: "normalize_exit_code 0xC0000005 = - 1073741819"
  by (simp add: normalize_exit_code_mod)

text \<open>
  C2. The raw status \<open>0xC0000005\<close> normalises to \<open>-1073741819\<close>, which is not 0. And in
  the strict harness, whenever the executable of a test that expects 0 ends with a raw
  status whose normalised code is not 0, the result recorded for the test is
  \<^verbatim>\<open>FAIL (Got <code>)\<close>, which is not \<^verbatim>\<open>PASS\<close>, and a report over results that end with
  it gives exit status 1.
\<close>

theorem nonzero_code_fails_expected_zero:
  assumes "run_cmd os (compile_cmd test_path) (Some e)
             (print (''--- Running '' @ basename test_path @ '' ---'') st) = (res, st1)"
      and "returncode res = 0"
      and "path_exists os (exe_path test_path) (world st1)"
      and "run_cmd os (normpath os (exe_path test_path)) None st1 = (res2, st2)"
      and "normalize_exit_code (returncode res2) \<noteq> 0"
  shows "normalize_exit_code 0xC0000005 = - 1073741819 \<and>
         fst (coff_test os e test_path 0 results st) =
           results @ [(basename test_path,
                       ''FAIL (Got '' @ str_int (normalize_exit_code (returncode res2)) @ '')'')] \<and>
         ''FAIL (Got '' @ str_int (normalize_exit_code (returncode res2)) @ '')'' \<noteq> ''PASS'' \<and>
         fst (coff_report (fst (coff_test os e test_path 0 results st)) st') = 1"
proof -
  have r: "fst (coff_test os e test_path 0 results st) =
      results @ [(basename test_path,
                  ''FAIL (Got '' @ str_int (normalize_exit_code (returncode res2)) @ '')'')]"
    using coff_test_mismatch [OF assms] by simp
  have "fst (coff_report (fst (coff_test os e test_path 0 results st)) st') = 1"
    unfolding r coff_report_status by simp
  with r access_violation_code show ?thesis by simp
qed

text \<open>
  The theorem at work: \<^verbatim>\<open>tests/23_pointer_math.c\<close> expects 0, its executable ends with
  the raw status \<open>0xC0000005\<close>.
\<close>

theorem nonzero_code_fails_expected_zero_witness:
  "fst (coff_test
      (sample_os [''tests/23_pointer_math.exe''] (\<lambda>argv. NotFound)
         (\<lambda>cmd. if cmd = compile_cmd ''tests/23_pointer_math.c'' then exited 0
                 else exited 0xC0000005) [])
      Map.empty ''tests/23_pointer_math.c'' 0 [] start) =
     [(''23_pointer_math.c'', ''FAIL (Got -1073741819)'')]"
proof -
  let ?os = "sample_os [''tests/23_pointer_math.exe''] (\<lambda>argv. NotFound)
         (\<lambda>cmd. if cmd = compile_cmd ''tests/23_pointer_math.c'' then exited 0
                 else exited 0xC0000005) []"
  let ?p = "''tests/23_pointer_math.c''"
  obtain res st1 where c: "run_cmd ?os (compile_cmd ?p) (Some Map.empty)
      (print (''--- Running '' @ basename ?p @ '' ---'') start) = (res, st1)"
    by (cases "run_cmd ?os (compile_cmd ?p) (Some Map.empty)
      (print (''--- Running '' @ basename ?p @ '' ---'') start)")
  have c0: "returncode res = 0"
    using c by (auto simp add: run_cmd_def shell_run_def sample_os_def exited_def)
  have ex: "path_exists ?os (exe_path ?p) (world st1)"
    by (simp add: sample_os_def exe_path_def)
  obtain res2 st2 where x: "run_cmd ?os (normpath ?os (exe_path ?p)) None st1 = (res2, st2)"
    by (cases "run_cmd ?os (normpath ?os (exe_path ?p)) None st1")
  have x0: "returncode res2 = 0xC0000005"
    using x by (auto simp add: run_cmd_def shell_run_def sample_os_def exited_def exe_path_def
        compile_cmd_def fadors_def bsl_def)
  have nz: "normalize_exit_code (returncode res2) \<noteq> 0"
    unfolding x0 by (simp add: normalize_exit_code_mod)
  have code: "str_int (normalize_exit_code (returncode res2)) = ''-1073741819''"
    unfolding x0 access_violation_code by (simp add: str_int_def str_nat.simps digit_char_def)
  from nonzero_code_fails_expected_zero [OF c c0 ex x nz, of "[]" start]
  show ?thesis by (simp add: code basename_def is_sep_def bsl_def)
qed

section \<open>What ends the whole run\<close>

lemma coff_test_names:
  "map fst (fst (coff_test os e test_path expected_code results st)) =
     map fst results @ [basename test_path]"
  by (simp add: coff_test_def Let_def split_beta)

lemma coff_loop_names:
  "map fst (fst (coff_loop os e ts results st)) = map fst results @ map (basename \<circ> fst) ts"
proof (induction ts arbitrary: results st)
  case Nil
  show ?case by simp
next
  case (Cons t ts)
  obtain test_path expected_code where t: "t = (test_path, expected_code)" by (cases t)
  obtain results' st' where c: "coff_test os e test_path expected_code results st = (results', st')"
    by (cases "coff_test os e test_path expected_code results st")
  have "map fst results' = map fst results @ [basename test_path]"
    using coff_test_names [of os e test_path expected_code results st] c by simp
  with Cons.IH [of results' st'] t c show ?case by simp
qed

lemma coff_results_names:
  assumes "bootstrap os st = (Inr (), st1)"
  shows "\<exists>results st2. coff_results os ts st = (Inr results, st2) \<and>
           map fst results = map (basename \<circ> fst) ts"
proof -
  let ?e = "(environ st1)(''FADORS_LINKER'' \<mapsto> ''link'')"
  obtain results st2 where l: "coff_loop os ?e ts [] st1 = (results, st2)"
    by (cases "coff_loop os ?e ts [] st1")
  have "map fst results = map (basename \<circ> fst) ts"
    using coff_loop_names [of os ?e ts "[]" st1] l by simp
  moreover have "coff_results os ts st = (Inr results, st2)"
    using assms l by (simp add: coff_results_def Let_def)
  ultimately show ?thesis by blast
qed

text \<open>
  C7, as the code has it. In the lenient harness, when the bootstrap is done and the
  compiler does not exist, the run ends there with status 1: one line is printed, no test
  is selected and no process is started. The strict harness has no such check: once its
  bootstrap is done, every listed test gets exactly one result, in order, whatever goes
  wrong in it (a missing compiler included), and the run ends with a report and an exit
  status.
\<close>

theorem run_wide_outcomes:
  assumes "bootstrap os st = (Inr (), st1)"
      and "bootstrap os' st' = (Inr (), st1')"
  shows "(\<not> path_exists os COMPILER (world st1) \<longrightarrow>
            asm_main os st = (Inr 1, print (''Compiler not found at '' @ COMPILER) st1)) \<and>
         (\<exists>results st2. coff_results os' tests st' = (Inr results, st2) \<and>
            map fst results = map (basename \<circ> fst) tests) \<and>
         (\<exists>n st3. coff_main os' st' = (Inr n, st3))"
proof -
  have lenient: "asm_main os st = (Inr 1, print (''Compiler not found at '' @ COMPILER) st1)"
    if "\<not> path_exists os COMPILER (world st1)"
    using that assms(1) by (simp add: asm_main_def)
  obtain results st2 where r: "coff_results os' tests st' = (Inr results, st2)"
      and n: "map fst results = map (basename \<circ> fst) tests"
    using coff_results_names [OF assms(2), of tests] by blast
  have "\<exists>n st3. coff_main os' st' = (Inr n, st3)"
    using r by (simp add: coff_main_def split_beta)
  with lenient r n show ?thesis by blast
qed

lemma bootstrap_no_compiler: "bootstrap os_no_compiler start = (Inr (), start)"
  by (simp add: bootstrap_def os_no_compiler_def sample_os_def)

text \<open>The theorem at work, in the world without any file.\<close>

theorem run_wide_outcomes_witness:
  "asm_main os_no_compiler start =
     (Inr 1, print (''Compiler not found at '' @ COMPILER) start) \<and>
   (\<exists>results st2. coff_results os_no_compiler tests start = (Inr results, st2) \<and>
      map fst results = map (basename \<circ> fst) tests) \<and>
   (\<exists>n st3. coff_main os_no_compiler start = (Inr n, st3))"
proof -
  have "\<not> path_exists os_no_compiler COMPILER (world start)"
    by (simp add: os_no_compiler_def sample_os_def)
  with run_wide_outcomes [OF bootstrap_no_compiler bootstrap_no_compiler] show ?thesis
    by blast
qed

text \<open>
  C7 as stated fails in the strict harness: with no compiler on disk the run is not
  ended at the start; all fourteen tests are run and each gets its result.
\<close>

theorem no_compiler_counterexample:
  "\<not> path_exists os_no_compiler fadors () \<and>
   fst (coff_results os_no_compiler tests start) = Inr
     [(''01_return.c'', ''FAIL (Comp)''), (''02_arithmetic.c'', ''FAIL (Comp)''),
      (''03_variables.c'', ''FAIL (Comp)''), (''04_if.c'', ''FAIL (Comp)''),
      (''06_while.c'', ''FAIL (Comp)''), (''07_function.c'', ''FAIL (Comp)''),
      (''12_string.c'', ''FAIL (Comp)''), (''14_params.c'', ''FAIL (Comp)''),
      (''15_nested_calls.c'', ''FAIL (Comp)''), (''19_array.c'', ''FAIL (Comp)''),
      (''20_switch.c'', ''FAIL (Comp)''), (''21_enum.c'', ''FAIL (Comp)''),
      (''22_union.c'', ''FAIL (Comp)''), (''23_pointer_math.c'', ''FAIL (Comp)'')]"
  using no_compiler_results by (simp add: os_no_compiler_def sample_os_def)

section \<open>Skipped tests in the count\<close>

lemma run_test_skipped:
  assumes asm: "\<forall>e w. fst (popen os (assemble_argv c_file) e w) = NotFound"
      and comp: "\<forall>e w. (\<exists>res. fst (popen os (compile_argv c_file) e w) = Completed res) \<and>
                   path_exists os (asm_file c_file) (snd (popen os (compile_argv c_file) e w))"
  shows "fst (run_test os c_file st) = Inr True"
    and "last (printed (snd (run_test os c_file st))) = ''SKIPPED: ml not found in PATH''"
proof -
  let ?st0 = "print (''Testing '' @ c_file @ ''...'') st"
  obtain r1 st1 where c: "check_call os (compile_argv c_file) ?st0 = (r1, st1)"
    by (cases "check_call os (compile_argv c_file) ?st0")
  obtain res where res: "fst (popen os (compile_argv c_file) (environ ?st0) (world ?st0)) = Completed res"
    using comp by blast
  have r1: "r1 = Inr () \<or> r1 = Inl (CalledProcessError (returncode res))"
    using check_callD(5) [OF c] res by (simp add: check_call_result)
  have "path_exists os (asm_file c_file) (world st1)"
    using check_callD(4) [OF c] comp by simp
  with run_test_after_compile [OF c r1]
  have rt: "run_test os c_file st = run_test_assemble os c_file st1"
    by (simp add: run_test_check_asm_def)
  have nf: "fst (popen os (assemble_argv c_file) (environ st1) (world st1)) = NotFound"
    using asm by simp
  show "fst (run_test os c_file st) = Inr True"
    unfolding rt using run_test_assemble_skip(1) [OF nf] .
  show "last (printed (snd (run_test os c_file st))) = ''SKIPPED: ml not found in PATH''"
    unfolding rt using run_test_assemble_skip(2) [OF nf] by simp
qed

lemma all_skipped_loop:
  assumes "\<forall>c \<in> set cs. basename c \<in> set test_whitelist \<longrightarrow>
             (\<forall>e w. fst (popen os (assemble_argv c) e w) = NotFound \<and>
                    (\<exists>res. fst (popen os (compile_argv c) e w) = Completed res) \<and>
                    path_exists os (asm_file c) (snd (popen os (compile_argv c) e w)))"
  shows "\<exists>st'. asm_loop os cs passed total' st =
           (Inr (passed + length (filter (\<lambda>c. basename c \<in> set test_whitelist) cs),
                 total' + length (filter (\<lambda>c. basename c \<in> set test_whitelist) cs)), st')"
  using assms
proof (induction cs arbitrary: passed total' st)
  case Nil
  show ?case by simp
next
  case (Cons c cs)
  from Cons.prems have rest: "\<forall>c \<in> set cs. basename c \<in> set test_whitelist \<longrightarrow>
             (\<forall>e w. fst (popen os (assemble_argv c) e w) = NotFound \<and>
                    (\<exists>res. fst (popen os (compile_argv c) e w) = Completed res) \<and>
                    path_exists os (asm_file c) (snd (popen os (compile_argv c) e w)))"
    by simp
  show ?case
  proof (cases "basename c \<in> set test_whitelist")
    case False
    with Cons.IH [OF rest, of passed total' st] show ?thesis by simp
  next
    case True
    with Cons.prems have "\<forall>e w. fst (popen os (assemble_argv c) e w) = NotFound"
      and "\<forall>e w. (\<exists>res. fst (popen os (compile_argv c) e w) = Completed res) \<and>
                 path_exists os (asm_file c) (snd (popen os (compile_argv c) e w))"
      by simp_all
    then have ok: "fst (run_test os c st) = Inr True"
      by (rule run_test_skipped(1))
    obtain st1 where rt: "run_test os c st = (Inr True, st1)"
      using ok by (cases "run_test os c st") simp
    from Cons.IH [OF rest, of "passed + 1" "total' + 1" st1] True rt
    show ?thesis by simp
  qed
qed

text \<open>
  C10. In the lenient harness, take a run in which, for every selected test, the
  compiler starts and leaves the assembly file and the assembler is not found. Then
  \<^verbatim>\<open>run_test\<close> returns \<^verbatim>\<open>True\<close> for each of them after printing the \<^verbatim>\<open>SKIPPED\<close> line,
  each adds one to \<open>passed\<close> and one to \<open>total\<close>, so the loop ends with both equal to the
  number of selected tests, and the harness exits with status 0.
\<close>

theorem skipped_counts_as_passed:
  assumes "bootstrap os st = (Inr (), st1)"
      and "path_exists os COMPILER (world st1)"
      and "\<forall>c \<in> set (glob os ''tests/*.c'' (world st1)). basename c \<in> set test_whitelist \<longrightarrow>
             (\<forall>e w. fst (popen os (assemble_argv c) e w) = NotFound \<and>
                    (\<exists>res. fst (popen os (compile_argv c) e w) = Completed res) \<and>
                    path_exists os (asm_file c) (snd (popen os (compile_argv c) e w)))"
  shows "(\<forall>c \<in> set (glob os ''tests/*.c'' (world st1)). basename c \<in> set test_whitelist \<longrightarrow>
            (\<forall>st'. fst (run_test os c st') = Inr True \<and>
                   last (printed (snd (run_test os c st'))) = ''SKIPPED: ml not found in PATH'')) \<and>
         (\<exists>st2. asm_loop os (glob os ''tests/*.c'' (world st1)) 0 0 st1 =
            (Inr (length (filter (\<lambda>c. basename c \<in> set test_whitelist)
                            (glob os ''tests/*.c'' (world st1))),
                  length (filter (\<lambda>c. basename c \<in> set test_whitelist)
                            (glob os ''tests/*.c'' (world st1)))), st2)) \<and>
         fst (asm_main os st) = Inr 0"
proof -
  let ?cs = "glob os ''tests/*.c'' (world st1)"
  let ?k = "length (filter (\<lambda>c. basename c \<in> set test_whitelist) ?cs)"
  have each: "\<forall>c \<in> set ?cs. basename c \<in> set test_whitelist \<longrightarrow>
            (\<forall>st'. fst (run_test os c st') = Inr True \<and>
                   last (printed (snd (run_test os c st'))) = ''SKIPPED: ml not found in PATH'')"
  proof (intro ballI impI allI)
    fix c st'
    assume "c \<in> set ?cs" and "basename c \<in> set test_whitelist"
    with assms(3) have "\<forall>e w. fst (popen os (assemble_argv c) e w) = NotFound"
      and "\<forall>e w. (\<exists>res. fst (popen os (compile_argv c) e w) = Completed res) \<and>
                 path_exists os (asm_file c) (snd (popen os (compile_argv c) e w))"
      by simp_all
    then show "fst (run_test os c st') = Inr True \<and>
        last (printed (snd (run_test os c st'))) = ''SKIPPED: ml not found in PATH''"
      using run_test_skipped [of os c st'] by simp
  qed
  obtain st2 where loop: "asm_loop os ?cs 0 0 st1 = (Inr (?k, ?k), st2)"
    using all_skipped_loop [OF assms(3), of 0 0 st1] by auto
  have "fst (asm_main os st) = Inr 0"
    using asm_main_status [OF assms(1,2) loop] by simp
  with each loop show ?thesis by blast
qed

text \<open>
  The theorem at work: three files found, two of them in the whitelist; the compiler
  returns 1 and leaves their assembly files, and no assembler is installed.
\<close>

theorem skipped_counts_as_passed_witness:
  "fst (asm_loop
      (sample_os [COMPILER, ''tests/01_return.asm'', ''tests/07_function.asm'']
         (\<lambda>argv. if hd argv = COMPILER then Completed (exited 1) else NotFound)
         (\<lambda>cmd. exited 0) [''tests/01_return.c'', ''tests/02_arithmetic.c'', ''tests/07_function.c''])
      [''tests/01_return.c'', ''tests/02_arithmetic.c'', ''tests/07_function.c''] 0 0 start) =
     Inr (2, 2) \<and>
   fst (asm_main
      (sample_os [COMPILER, ''tests/01_return.asm'', ''tests/07_function.asm'']
         (\<lambda>argv. if hd argv = COMPILER then Completed (exited 1) else NotFound)
         (\<lambda>cmd. exited 0) [''tests/01_return.c'', ''tests/02_arithmetic.c'', ''tests/07_function.c''])
      start) = Inr 0"
proof -
  let ?os = "sample_os [COMPILER, ''tests/01_return.asm'', ''tests/07_function.asm'']
         (\<lambda>argv. if hd argv = COMPILER then Completed (exited 1) else NotFound)
         (\<lambda>cmd. exited 0) [''tests/01_return.c'', ''tests/02_arithmetic.c'', ''tests/07_function.c'']"
  have boot: "bootstrap ?os start = (Inr (), start)"
    by (simp add: bootstrap_def sample_os_def vcvars_path_def COMPILER_def bsl_def)
  have comp: "path_exists ?os COMPILER (world start)"
    by (simp add: sample_os_def)
  have found: "glob ?os ''tests/*.c'' (world start) =
      [''tests/01_return.c'', ''tests/02_arithmetic.c'', ''tests/07_function.c'']"
    by (simp add: sample_os_def)
  have hyp: "\<forall>c \<in> set (glob ?os ''tests/*.c'' (world start)). basename c \<in> set test_whitelist \<longrightarrow>
             (\<forall>e w. fst (popen ?os (assemble_argv c) e w) = NotFound \<and>
                    (\<exists>res. fst (popen ?os (compile_argv c) e w) = Completed res) \<and>
                    path_exists ?os (asm_file c) (snd (popen ?os (compile_argv c) e w)))"
    unfolding found
    by (simp add: sample_os_def assemble_argv_def compile_argv_def asm_file_def
          splitext_root_def basename_def is_sep_def bsl_def COMPILER_def ASSEMBLER_def
          test_whitelist_def Let_def)
  have k: "length (filter (\<lambda>c. basename c \<in> set test_whitelist)
             [''tests/01_return.c'', ''tests/02_arithmetic.c'', ''tests/07_function.c'']) = 2"
    by (simp add: basename_def is_sep_def bsl_def test_whitelist_def)
  from skipped_counts_as_passed [OF boot comp hyp] show ?thesis
    unfolding found k by (auto simp del: asm_loop.simps)
qed

end
